theory Spec2Isabelle
  imports Complex_Main "HOL-Library.Sublist" "HOL-Library.AList" "HOL-Library.Log_Nat"
begin

section \<open>JavaScript strings and numbers\<close>

text \<open>
  A JavaScript string is modelled as a \<open>string\<close>: one \<open>char\<close> per UTF-16 code unit,
  for code units below 256. \<open>length\<close> is the source's \<open>.length\<close>.

  A JavaScript number is an IEEE 754 double. The model keeps the three non-finite
  values apart and embeds a finite double as the real number it denotes (the two
  zeros are one value: the code below prints both alike). An operation whose result
  the runtime rounds is rounded here too, by \<open>round_to_double\<close>.
\<close>

datatype 'a ext = NaN | PosInf | NegInf | Finite 'a

type_synonym number = "real ext"

definition isNaN :: "'a ext \<Rightarrow> bool" where
  "isNaN x = (x = NaN)"

text \<open>The comparison \<open>x < c\<close> for a finite constant \<open>c\<close>; false on \<open>NaN\<close>.\<close>

fun num_less :: "('a::linorder) ext \<Rightarrow> 'a \<Rightarrow> bool" where
  "num_less NaN c = False"
| "num_less PosInf c = False"
| "num_less NegInf c = True"
| "num_less (Finite r) c = (r < c)"

text \<open>The comparison \<open>x > c\<close> for a finite constant \<open>c\<close>; false on \<open>NaN\<close>.\<close>

fun num_greater :: "('a::linorder) ext \<Rightarrow> 'a \<Rightarrow> bool" where
  "num_greater NaN c = False"
| "num_greater PosInf c = True"
| "num_greater NegInf c = False"
| "num_greater (Finite r) c = (c < r)"

subsection \<open>Rounding to a double\<close>

text \<open>\<open>2^k\<close> for an integer \<open>k\<close>.\<close>

definition pow2 :: "int \<Rightarrow> real" where
  "pow2 k = (if 0 \<le> k then 2 ^ nat k else 1 / 2 ^ nat (- k))"

text \<open>The exponent of a positive real \<open>x\<close>: the integer \<open>e\<close> with \<open>2^e \<le> x < 2^(e+1)\<close>.\<close>

definition binade :: "real \<Rightarrow> int" where
  "binade x = (if 1 \<le> x then bitlen \<lfloor>x\<rfloor> - 1 else - bitlen (\<lceil>1 / x\<rceil> - 1))"

text \<open>The nearest integer, the even one on a tie.\<close>

definition round_half_even :: "real \<Rightarrow> int" where
  "round_half_even q =
     (let f = \<lfloor>q\<rfloor>; d = q - of_int f
      in if d < 1 / 2 then f else if 1 / 2 < d then f + 1 else if even f then f else f + 1)"

text \<open>
  The double nearest to a real number (IEEE 754 binary64, round to nearest, ties to
  even): 53 significant bits at the exponent of the number, exponents below \<open>-1022\<close>
  share the spacing \<open>2^-1074\<close> of the subnormal numbers. Overflow is left out: the
  function is applied to quotients of a double by a constant above 1, which are no
  larger than the double.
\<close>

definition round_to_double :: "real \<Rightarrow> real" where
  "round_to_double x =
     (if x = 0 then 0
      else (let a = \<bar>x\<bar>;
                e = max (binade a) (- 1022);
                u = pow2 (e - 52);
                y = of_int (round_half_even (a / u)) * u
            in if x < 0 then - y else y))"

text \<open>\<open>x / c\<close> for a finite constant \<open>c \<ge> 1\<close>: the quotient, rounded.\<close>

fun num_div :: "number \<Rightarrow> real \<Rightarrow> number" where
  "num_div NaN c = NaN"
| "num_div PosInf c = PosInf"
| "num_div NegInf c = NegInf"
| "num_div (Finite r) c = Finite (round_to_double (r / c))"

text \<open>
  \<open>x % c\<close> for a positive finite constant \<open>c\<close>: \<open>NaN\<close> unless \<open>x\<close> is finite, and
  otherwise the remainder of the division truncated towards zero (the sign is the
  dividend's). The remainder of two doubles is a double: nothing is rounded.
\<close>

fun num_rem :: "number \<Rightarrow> real \<Rightarrow> number" where
  "num_rem (Finite r) c =
     Finite (if 0 \<le> r then r - c * of_int \<lfloor>r / c\<rfloor> else r - c * of_int \<lceil>r / c\<rceil>)"
| "num_rem x c = NaN"

fun Math_floor :: "number \<Rightarrow> int ext" where
  "Math_floor NaN = NaN"
| "Math_floor PosInf = PosInf"
| "Math_floor NegInf = NegInf"
| "Math_floor (Finite r) = Finite \<lfloor>r\<rfloor>"

text \<open>\<open>x % c\<close> on integral values, \<open>c\<close> a positive constant.\<close>

fun int_rem :: "int ext \<Rightarrow> int \<Rightarrow> int ext" where
  "int_rem (Finite i) c = Finite (if 0 \<le> i then i mod c else - ((- i) mod c))"
| "int_rem x c = NaN"

text \<open>Decimal digits of a natural number, as \<open>Number.prototype.toString\<close> prints them.\<close>

fun decimal :: "nat \<Rightarrow> string" where
  "decimal n =
     (if n < 10 then [''0123456789'' ! n]
      else decimal (n div 10) @ [''0123456789'' ! (n mod 10)])"

declare decimal.simps [simp del]

definition intToString :: "int \<Rightarrow> string" where
  "intToString i = (if i < 0 then ''-'' @ decimal (nat (- i)) else decimal (nat i))"

text \<open>
  The \<open>j\<close> lowest decimal digits of a natural number: the number printed at the fixed
  width \<open>j\<close>, padded with zeros on the left.
\<close>

fun padded :: "nat \<Rightarrow> nat \<Rightarrow> string" where
  "padded 0 n = []"
| "padded (Suc j) n = padded j (n div 10) @ [''0123456789'' ! (n mod 10)]"

section \<open>Values, errors and the runtime\<close>

text \<open>
  A raise of the source is a value: \<open>TypeError\<close> for a property read on \<open>null\<close> or
  \<open>undefined\<close> and for a call of something that is not a function, \<open>Thrown msg\<close> for an
  exception raised by user code (a \<open>toJSON\<close> method), with its message, and
  \<open>NodeError code\<close> for an error raised by Node's library, with its code.
\<close>

datatype error = TypeError | Thrown string | NodeError string

text \<open>
  A JavaScript value, as far as \<open>Util.validateStringMap\<close> tells values apart. An object
  carries: the message when it is an \<open>instanceof Error\<close>; what its \<open>toJSON\<close> method does
  when it has one (\<open>Inl msg\<close>: it throws, \<open>Inr v\<close>: it returns \<open>v\<close>); the name of its
  constructor; and its own enumerable properties, in the order \<open>for ... in\<close> visits
  them.
\<close>

datatype jsval =
    JSUndefined
  | JSNull
  | JSBoolean bool
  | JSNumber number
  | JSString string
  | JSFunction
  | JSArray "jsval list"
  | JSObject (errorMessage: "string option") (toJSON: "(string + jsval) option")
      (constructorName: string) (props: "(string \<times> jsval) list")

fun typeof :: "jsval \<Rightarrow> string" where
  "typeof JSUndefined = ''undefined''"
| "typeof JSNull = ''object''"
| "typeof (JSBoolean b) = ''boolean''"
| "typeof (JSNumber n) = ''number''"
| "typeof (JSString s) = ''string''"
| "typeof JSFunction = ''function''"
| "typeof (JSArray xs) = ''object''"
| "typeof (JSObject e t c ps) = ''object''"

text \<open>Truthiness, as \<open>!\<close>, \<open>||\<close> and \<open>&&\<close> read a value.\<close>

fun truthy :: "jsval \<Rightarrow> bool" where
  "truthy JSUndefined = False"
| "truthy JSNull = False"
| "truthy (JSBoolean b) = b"
| "truthy (JSNumber n) = (n \<noteq> NaN \<and> n \<noteq> Finite 0)"
| "truthy (JSString s) = (s \<noteq> [])"
| "truthy v = True"

text \<open>
  The properties every plain object inherits from \<open>Object.prototype\<close> (none of them
  enumerable): \<open>__proto__\<close> is an accessor whose getter returns the prototype, the
  others are functions.
\<close>

definition Object_prototype :: "(string \<times> jsval) list" where
  "Object_prototype =
     [(''constructor'', JSFunction),
      (''__defineGetter__'', JSFunction),
      (''__defineSetter__'', JSFunction),
      (''hasOwnProperty'', JSFunction),
      (''__lookupGetter__'', JSFunction),
      (''__lookupSetter__'', JSFunction),
      (''isPrototypeOf'', JSFunction),
      (''propertyIsEnumerable'', JSFunction),
      (''toString'', JSFunction),
      (''valueOf'', JSFunction),
      (''__proto__'', JSObject None None ''Object'' []),
      (''toLocaleString'', JSFunction)]"

text \<open>
  \<open>obj[key]\<close> on a plain object (one whose prototype is \<open>Object.prototype\<close>, such as
  an object literal), given its own properties: the own property when there is one,
  else the inherited one, else \<open>undefined\<close>.
\<close>

definition get_prop :: "(string \<times> jsval) list \<Rightarrow> string \<Rightarrow> jsval" where
  "get_prop ps k =
     (case map_of ps k of
        Some v \<Rightarrow> v
      | None \<Rightarrow> (case map_of Object_prototype k of Some v \<Rightarrow> v | None \<Rightarrow> JSUndefined))"

text \<open>
  \<open>obj[key] = v\<close> on a plain object, for its own properties. The key \<open>__proto__\<close>,
  unless it is an own property, reaches the setter inherited from \<open>Object.prototype\<close>,
  which adds no property (and leaves the prototype as it is when \<open>v\<close> is neither an
  object nor \<open>null\<close>, or is the prototype itself: the values assigned below are of
  these kinds).
\<close>

definition set_prop :: "(string \<times> 'v) list \<Rightarrow> string \<Rightarrow> 'v \<Rightarrow> (string \<times> 'v) list" where
  "set_prop ps k v =
     (if k = ''__proto__'' \<and> map_of ps k = None then ps else AList.update k v ps)"

text \<open>
  What the code uses of the JavaScript runtime and of Node's library, as parameters:
  \<open>Number.prototype.toString\<close> (used for the numbers that are not integers below
  \<open>2^53\<close> in absolute value); \<open>parseInt\<close> (used for the strings of digits that denote
  \<open>2^53\<close> or more); \<open>JSON.stringify\<close> (\<open>Inl msg\<close>: it throws an error with that
  message, \<open>Inr None\<close>: it returns \<open>undefined\<close>, \<open>Inr (Some s)\<close>: it returns the string
  \<open>s\<close>); and \<open>url.parse(u).hostname\<close> (\<open>None\<close>: no hostname).
\<close>

record runtime =
  Number_toString :: "number \<Rightarrow> string"
  Global_parseInt :: "string \<Rightarrow> number"
  JSON_stringify :: "jsval \<Rightarrow> string + string option"
  url_hostname :: "string \<Rightarrow> string option"

text \<open>
  \<open>x.toString()\<close> and \<open>"" + x\<close> for a number: an integer below \<open>2^53\<close> in absolute
  value is printed digit by digit, the non-finite values by name; what the runtime
  prints for any other number (the shortest digits that read back as the same double,
  in exponent notation from \<open>10^21\<close> on) is the parameter.
\<close>

definition number_toString :: "runtime \<Rightarrow> number \<Rightarrow> string" where
  "number_toString rt x =
     (case x of
        NaN \<Rightarrow> ''NaN''
      | PosInf \<Rightarrow> ''Infinity''
      | NegInf \<Rightarrow> ''-Infinity''
      | Finite r \<Rightarrow>
          (if of_int \<lfloor>r\<rfloor> = r \<and> \<bar>r\<bar> < 2 ^ 53 then intToString \<lfloor>r\<rfloor>
           else Number_toString rt x))"

section \<open>Util.msToTimeSpan\<close>

text \<open>\<open>"" + x\<close> for an integral number.\<close>

fun toString :: "runtime \<Rightarrow> int ext \<Rightarrow> string" where
  "toString rt NaN = ''NaN''"
| "toString rt PosInf = ''Infinity''"
| "toString rt NegInf = ''-Infinity''"
| "toString rt (Finite i) = number_toString rt (Finite (of_int i))"

text \<open>
  \<open>Number.prototype.toFixed(f)\<close> (ECMA-262): from \<open>10^21\<close> on in absolute value the
  number is printed as \<open>toString\<close> prints it; below, the integer \<open>n\<close> with \<open>n / 10^f\<close>
  closest to \<open>|x|\<close>, the larger one on a tie, is printed with at least \<open>f + 1\<close> digits
  and a point before the last \<open>f\<close>; a negative \<open>x\<close> keeps its sign. Nothing is rounded
  to a double on the way: \<open>n\<close> is taken from the exact value of \<open>x\<close>.
\<close>

fun toFixed :: "runtime \<Rightarrow> nat \<Rightarrow> number \<Rightarrow> string" where
  "toFixed rt f NaN = ''NaN''"
| "toFixed rt f PosInf = ''Infinity''"
| "toFixed rt f NegInf = ''-Infinity''"
| "toFixed rt f (Finite x) =
     (if 10 ^ 21 \<le> \<bar>x\<bar> then number_toString rt (Finite x)
      else (let s = (if x < 0 then ''-'' else '''');
                n = nat \<lfloor>\<bar>x\<bar> * 10 ^ f + 1 / 2\<rfloor>;
                m = decimal n;
                m' = (if length m \<le> f then replicate (f + 1 - length m) (CHR ''0'') @ m else m);
                k = length m'
            in s @ take (k - f) m' @ ''.'' @ drop (k - f) m'))"

text \<open>\<open>String.prototype.indexOf\<close> for one character: \<open>-1\<close> when it does not occur.\<close>

fun indexOf :: "string \<Rightarrow> char \<Rightarrow> int" where
  "indexOf [] c = - 1"
| "indexOf (x # xs) c =
     (if x = c then 0 else (let i = indexOf xs c in if i < 0 then - 1 else i + 1))"

text \<open>
  \<open>s.replace(/0{0,4}$/, "")\<close>: the regular expression has no \<open>g\<close> flag, so the
  leftmost match is removed. At a position the pattern matches iff what remains of
  the string is at most four characters, all \<open>0\<close>; otherwise the search moves on by
  one character. The empty match at the end always succeeds.
\<close>

fun replace_zeros_at_end :: "string \<Rightarrow> string" where
  "replace_zeros_at_end [] = []"
| "replace_zeros_at_end (c # cs) =
     (if length (c # cs) \<le> 4 \<and> list_all (\<lambda>d. d = CHR ''0'') (c # cs) then []
      else c # replace_zeros_at_end cs)"

text \<open>
  \<open>Util.msToTimeSpan\<close>. The code assigns to its parameter \<open>totalms\<close>; \<open>totalms0\<close> is
  the value on entry.
\<close>

definition msToTimeSpan :: "runtime \<Rightarrow> number \<Rightarrow> string" where
  "msToTimeSpan rt totalms0 =
     (let totalms = (if isNaN totalms0 \<or> num_less totalms0 0 then Finite 0 else totalms0);
          sec = replace_zeros_at_end (toFixed rt 7 (num_rem (num_div totalms 1000) 60));
          min = toString rt (int_rem (Math_floor (num_div totalms (1000 * 60))) 60);
          hour = toString rt (int_rem (Math_floor (num_div totalms (1000 * 60 * 60))) 24);
          days = Math_floor (num_div totalms (1000 * 60 * 60 * 24));
          sec = (if indexOf sec (CHR ''.'') < 2 then ''0'' @ sec else sec);
          min = (if length min < 2 then ''0'' @ min else min);
          hour = (if length hour < 2 then ''0'' @ hour else hour);
          daysText = (if num_greater days 0 then toString rt days @ ''.'' else '''')
      in daysText @ hour @ '':'' @ min @ '':'' @ sec)"

section \<open>Util: strings\<close>

text \<open>
  The characters \<open>\s\<close> matches (below 256): tab, line feed, vertical tab, form feed,
  carriage return, space and the no-break space.
\<close>

definition isWhiteSpace :: "char \<Rightarrow> bool" where
  "isWhiteSpace c =
     (c \<in> set [CHR 0x09, CHR 0x0A, CHR 0x0B, CHR 0x0C, CHR 0x0D, CHR 0x20, CHR 0xA0])"

text \<open>The characters \<open>.\<close> does not match (below 256): line feed and carriage return.\<close>

definition isLineTerminator :: "char \<Rightarrow> bool" where
  "isLineTerminator c = (c = CHR 0x0A \<or> c = CHR 0x0D)"

text \<open>
  \<open>Util.trim\<close>: \<open>str.replace(/^\s+|\s+$/g, "")\<close> for a string, and the empty string for
  anything else (\<open>None\<close>).
\<close>

fun trim :: "string option \<Rightarrow> string" where
  "trim (Some str) = rev (dropWhile isWhiteSpace (rev (dropWhile isWhiteSpace str)))"
| "trim None = []"

text \<open>\<open>s.split(d)\<close> for a separator of one character: never the empty list.\<close>

fun split :: "char \<Rightarrow> string \<Rightarrow> string list" where
  "split d [] = [[]]"
| "split d (c # cs) =
     (if c = d then [] # split d cs
      else (case split d cs of w # ws \<Rightarrow> (c # w) # ws | [] \<Rightarrow> [[c]]))"

text \<open>\<open>xs.join(d)\<close> for a separator of one character.\<close>

fun join :: "char \<Rightarrow> string list \<Rightarrow> string" where
  "join d [] = []"
| "join d [x] = x"
| "join d (x # y # ys) = x @ d # join d (y # ys)"

section \<open>Util.validateStringMap\<close>

definition MAX_PROPERTY_LENGTH :: nat where
  "MAX_PROPERTY_LENGTH = 8192"

definition isArray :: "jsval \<Rightarrow> bool" where
  "isArray obj = (case obj of JSArray xs \<Rightarrow> True | _ \<Rightarrow> False)"

definition isPrimitive :: "jsval \<Rightarrow> bool" where
  "isPrimitive input =
     (let propType = typeof input
      in propType = ''string'' \<or> propType = ''number'' \<or> propType = ''boolean'')"

text \<open>\<open>a || b\<close> on values.\<close>

definition js_or :: "jsval \<Rightarrow> jsval \<Rightarrow> jsval" where
  "js_or a b = (if truthy a then a else b)"

text \<open>
  \<open>Util.extractError\<close>: the plain object \<open>{message, code}\<close>. The argument is an
  \<open>Error\<close>; \<open>code\<close> and \<open>id\<close> are read from its properties.
\<close>

definition extractError :: "jsval \<Rightarrow> jsval" where
  "extractError err =
     JSObject None None ''Object''
       [(''message'', (case errorMessage err of Some m \<Rightarrow> JSString m | None \<Rightarrow> JSUndefined)),
        (''code'', js_or (js_or (get_prop (props err) ''code'') (get_prop (props err) ''id''))
                     (JSString []))]"

text \<open>
  \<open>Util.extractObject\<close>, called on values that are neither primitive, \<open>null\<close>,
  \<open>undefined\<close>, a function nor an array. A throwing \<open>toJSON\<close> is not caught.
\<close>

definition extractObject :: "jsval \<Rightarrow> error + jsval" where
  "extractObject origProperty =
     (case origProperty of
        JSObject e t c ps \<Rightarrow>
          (if e \<noteq> None then Inr (extractError origProperty)
           else (case t of
                   Some (Inl msg) \<Rightarrow> Inl (Thrown msg)
                 | Some (Inr v) \<Rightarrow> Inr v
                 | None \<Rightarrow> Inr origProperty))
      | _ \<Rightarrow> Inr origProperty)"

text \<open>\<open>origProperty.toString()\<close> for a primitive.\<close>

fun primitive_toString :: "runtime \<Rightarrow> jsval \<Rightarrow> string" where
  "primitive_toString rt (JSString s) = s"
| "primitive_toString rt (JSNumber n) = number_toString rt n"
| "primitive_toString rt (JSBoolean b) = (if b then ''true'' else ''false'')"
| "primitive_toString rt v = []"

text \<open>\<open>origProperty.constructor.name.toString()\<close>.\<close>

fun constructor_name :: "jsval \<Rightarrow> string" where
  "constructor_name (JSArray xs) = ''Array''"
| "constructor_name (JSObject e t c ps) = c"
| "constructor_name v = []"

text \<open>
  The body of the loop of \<open>validateStringMap\<close> up to the assignment to \<open>map[field]\<close>:
  the value of \<open>property\<close> for one field. \<open>Inr None\<close> is the \<open>continue\<close> for a function.
  When \<open>property\<close> ends up a number, a boolean or \<open>undefined\<close> (a \<open>toJSON\<close> that returns
  a number or a boolean, a \<open>JSON.stringify\<close> that returns \<open>undefined\<close>), the call of
  \<open>property.substring\<close> raises a \<open>TypeError\<close>.
\<close>

definition property_of :: "runtime \<Rightarrow> jsval \<Rightarrow> error + string option" where
  "property_of rt origProperty =
     (let propType = typeof origProperty in
      if isPrimitive origProperty then Inr (Some (primitive_toString rt origProperty))
      else if origProperty = JSNull \<or> propType = ''undefined'' then Inr (Some [])
      else if propType = ''function'' then Inr None
      else
        (case (if isArray origProperty then Inr origProperty else extractObject origProperty) of
           Inl e \<Rightarrow> Inl e
         | Inr stringTarget \<Rightarrow>
             (if isPrimitive stringTarget then
                (case stringTarget of JSString s \<Rightarrow> Inr (Some s) | _ \<Rightarrow> Inl TypeError)
              else
                (case JSON_stringify rt stringTarget of
                   Inl msg \<Rightarrow>
                     Inr (Some (constructor_name origProperty @ '' (Error: '' @ msg @ '')''))
                 | Inr None \<Rightarrow> Inl TypeError
                 | Inr (Some s) \<Rightarrow> Inr (Some s)))))"

text \<open>
  The loop \<open>for (const field in obj)\<close> over the fields still to visit, with the own
  properties of \<open>map\<close> so far (\<open>map\<close> starts as \<open>{}\<close>, a plain object, and the
  assignment \<open>map[field] = ...\<close> stores a string).
\<close>

fun validate_fields ::
  "runtime \<Rightarrow> (string \<times> jsval) list \<Rightarrow> (string \<times> string) list \<Rightarrow>
   error + (string \<times> string) list"
where
  "validate_fields rt [] m = Inr m"
| "validate_fields rt ((field, origProperty) # rest) m =
     (case property_of rt origProperty of
        Inl e \<Rightarrow> Inl e
      | Inr None \<Rightarrow> validate_fields rt rest m
      | Inr (Some property) \<Rightarrow>
          validate_fields rt rest (set_prop m field (take MAX_PROPERTY_LENGTH property)))"

text \<open>
  The fields \<open>for ... in\<close> visits: none for \<open>null\<close>, the indices of an array, the
  enumerable properties of an object.
\<close>

fun for_in :: "jsval \<Rightarrow> (string \<times> jsval) list" where
  "for_in (JSArray xs) = zip (map decimal [0..<length xs]) xs"
| "for_in (JSObject e t c ps) = ps"
| "for_in v = []"

text \<open>\<open>Inr None\<close> is the result \<open>undefined\<close>. The calls of \<open>Logging.info\<close> are left out.\<close>

definition validateStringMap ::
  "runtime \<Rightarrow> jsval \<Rightarrow> error + (string \<times> string) list option"
where
  "validateStringMap rt obj =
     (if typeof obj \<noteq> ''object'' then Inr None
      else (case validate_fields rt (for_in obj) [] of
              Inl e \<Rightarrow> Inl e
            | Inr m \<Rightarrow> Inr (Some m)))"

section \<open>Configuration and the telemetry client\<close>

text \<open>
  The fields of \<open>Config\<close> and \<open>TelemetryClient\<close> that the code reads. \<open>None\<close> is
  \<open>undefined\<close> or \<open>null\<close>.
\<close>

record Config =
  instrumentationKey :: "string option"
  samplingPercentage :: number
  correlationId :: string
  correlationHeaderExcludedDomains :: "string list option"

record TelemetryClient =
  config :: "Config option"

section \<open>Util.canIncludeCorrelationHeader\<close>

text \<open>
  The regular expressions that the exclusion patterns compile to, as far as they are
  modelled: a sequence of \<open>.*\<close>, \<open>.\<close> and characters that stand for themselves.
\<close>

datatype atom = AnyStar | AnyChar | Lit char

text \<open>\<open>s.replace(/\./g, ".")\<close> and \<open>s.replace(/\*/g, ".*")\<close>.\<close>

definition replace_dots :: "string \<Rightarrow> string" where
  "replace_dots s = concat (map (\<lambda>c. if c = CHR ''.'' then ''.'' else [c]) s)"

definition replace_stars :: "string \<Rightarrow> string" where
  "replace_stars s = concat (map (\<lambda>c. if c = CHR ''*'' then ''.*'' else [c]) s)"

text \<open>The syntax characters of a regular expression (\<open>0x5C\<close> is the backslash).\<close>

definition isSyntaxCharacter :: "char \<Rightarrow> bool" where
  "isSyntaxCharacter c = (c = CHR 0x5C \<or> c \<in> set ''^$.*+?()[]{}|'')"

text \<open>
  \<open>new RegExp(source)\<close>. \<open>None\<close> when the source is outside the modelled fragment (it
  holds a syntax character other than \<open>.\<close> and the \<open>*\<close> of \<open>.*\<close>): there the
  constructor may raise a \<open>SyntaxError\<close>, or build an expression this model has no
  semantics for.
\<close>

fun RegExp :: "string \<Rightarrow> atom list option" where
  "RegExp [] = Some []"
| "RegExp (c # cs) =
     (if c = CHR ''.'' then
        (case cs of
           d # ds \<Rightarrow>
             (if d = CHR ''*'' then map_option (Cons AnyStar) (RegExp ds)
              else map_option (Cons AnyChar) (RegExp cs))
         | [] \<Rightarrow> Some [AnyChar])
      else if isSyntaxCharacter c then None
      else map_option (Cons (Lit c)) (RegExp cs))"

text \<open>
  A match of the atoms at the start of the string, by backtracking (\<open>.*\<close> first gives
  up nothing, and whether it is tried greedily does not change whether a match exists).
\<close>

fun match_here :: "atom list \<Rightarrow> string \<Rightarrow> bool" where
  "match_here [] s = True"
| "match_here (Lit c # r) [] = False"
| "match_here (Lit c # r) (x # xs) = (x = c \<and> match_here r xs)"
| "match_here (AnyChar # r) [] = False"
| "match_here (AnyChar # r) (x # xs) = (\<not> isLineTerminator x \<and> match_here r xs)"
| "match_here (AnyStar # r) [] = match_here r []"
| "match_here (AnyStar # r) (x # xs) =
     (match_here r (x # xs) \<or> (\<not> isLineTerminator x \<and> match_here (AnyStar # r) xs))"

text \<open>\<open>regex.test(s)\<close>: a match at some position of the string.\<close>

fun regex_test :: "atom list \<Rightarrow> string \<Rightarrow> bool" where
  "regex_test re [] = match_here re []"
| "regex_test re (x # xs) = (match_here re (x # xs) \<or> regex_test re xs)"

text \<open>
  The loop over \<open>excludedDomains\<close>. \<open>Some b\<close> is the result \<open>b\<close>; \<open>None\<close> when a pattern
  that the loop reaches is outside the modelled fragment.
\<close>

fun excluded_loop :: "runtime \<Rightarrow> string list \<Rightarrow> string \<Rightarrow> bool option" where
  "excluded_loop rt [] requestUrl = Some True"
| "excluded_loop rt (d # ds) requestUrl =
     (case RegExp (replace_stars (replace_dots d)) of
        None \<Rightarrow> None
      | Some regex \<Rightarrow>
          (let hostname = url_hostname rt requestUrl in
           if hostname = None \<or> hostname = Some [] \<or> regex_test regex (the hostname)
           then Some False
           else excluded_loop rt ds requestUrl))"

definition canIncludeCorrelationHeader ::
  "runtime \<Rightarrow> TelemetryClient option \<Rightarrow> string \<Rightarrow> bool option"
where
  "canIncludeCorrelationHeader rt client requestUrl =
     (let excludedDomains =
            (case client of
               None \<Rightarrow> None
             | Some c \<Rightarrow>
                 (case config c of
                    None \<Rightarrow> None
                  | Some cfg \<Rightarrow> correlationHeaderExcludedDomains cfg))
      in case excludedDomains of
           None \<Rightarrow> Some True
         | Some ds \<Rightarrow>
             (if length ds = 0 \<or> requestUrl = [] then Some True
              else excluded_loop rt ds requestUrl))"

section \<open>Util.safeIncludeCorrelationHeader\<close>

text \<open>
  The two constants of \<open>RequestResponseHeaders\<close> that the code reads (the module is
  not part of the sources at hand, so they are parameters).
\<close>

record RequestResponseHeaders =
  requestContextHeader :: string
  requestContextSourceKey :: string

text \<open>
  A request or response (an \<open>OutgoingMessage\<close> of Node's \<open>http\<close>), as far as the code
  touches it: whether its headers have been sent already, and the headers set on it,
  which Node keeps under the name in lower case.
\<close>

record request =
  headersSent :: bool
  headers :: "string \<rightharpoonup> string"

text \<open>\<open>s.toLowerCase()\<close>, on the ASCII letters.\<close>

definition toLowerCase :: "string \<Rightarrow> string" where
  "toLowerCase s =
     map (\<lambda>c. case map_of (zip ''ABCDEFGHIJKLMNOPQRSTUVWXYZ'' ''abcdefghijklmnopqrstuvwxyz'') c of
                Some l \<Rightarrow> l
              | None \<Rightarrow> c) s"

text \<open>
  The characters of an HTTP token, which Node requires of a header name: the ASCII
  letters and digits and the fifteen marks listed by their codes (caret, underscore,
  backquote, hyphen, exclamation mark, number sign, dollar, percent, ampersand,
  apostrophe, asterisk, plus, full stop, vertical bar, tilde).
\<close>

definition isTokenChar :: "char \<Rightarrow> bool" where
  "isTokenChar c =
     (let n = (of_char c :: nat)
      in (97 \<le> n \<and> n \<le> 122) \<or> (65 \<le> n \<and> n \<le> 90) \<or> (48 \<le> n \<and> n \<le> 57) \<or>
         n \<in> set [0x5E, 0x5F, 0x60, 0x2D, 0x21, 0x23, 0x24, 0x25, 0x26, 0x27, 0x2A, 0x2B,
                    0x2E, 0x7C, 0x7E])"

definition validHeaderName :: "string \<Rightarrow> bool" where
  "validHeaderName name = (name \<noteq> [] \<and> list_all isTokenChar name)"

text \<open>
  The characters Node refuses in a header value: those outside the tab, the range
  \<open>0x20\<close> to \<open>0x7e\<close> and the range \<open>0x80\<close> to \<open>0xff\<close>, that is the control
  characters other than the tab.
\<close>

definition isInvalidHeaderChar :: "char \<Rightarrow> bool" where
  "isInvalidHeaderChar c =
     (let n = (of_char c :: nat)
      in \<not> (n = 9 \<or> (32 \<le> n \<and> n \<le> 126) \<or> (128 \<le> n \<and> n \<le> 255)))"

definition validHeaderValue :: "string \<Rightarrow> bool" where
  "validHeaderValue v = (\<not> list_ex isInvalidHeaderChar v)"

text \<open>
  \<open>request.setHeader(name, value)\<close> for two strings, as Node's library documents it:
  it raises when the headers have been sent, when the name is not a token and when
  the value holds an invalid character, and otherwise stores the value.
\<close>

definition setHeader :: "request \<Rightarrow> string \<Rightarrow> string \<Rightarrow> error + request" where
  "setHeader request name v =
     (if headersSent request then Inl (NodeError ''ERR_HTTP_HEADERS_SENT'')
      else if \<not> validHeaderName name then Inl (NodeError ''ERR_INVALID_HTTP_TOKEN'')
      else if \<not> validHeaderValue v then Inl (NodeError ''ERR_INVALID_CHAR'')
      else Inr (request\<lparr>headers := (headers request)(toLowerCase name \<mapsto> v)\<rparr>))"

text \<open>\<open>request.getHeader(name)\<close>: \<open>None\<close> for \<open>undefined\<close>.\<close>

definition getHeader :: "request \<Rightarrow> string \<Rightarrow> string option" where
  "getHeader request name = headers request (toLowerCase name)"

text \<open>
  The header value handed in: a string, an array of strings, some other value with a
  \<open>toString\<close> method (\<open>None\<close> when the method throws), or a value that is falsy or has
  no such method.
\<close>

datatype header_value =
    HeaderString string
  | HeaderArray "string list"
  | HeaderOther "string option"
  | HeaderAbsent

text \<open>\<open>client.config.correlationId\<close>: a \<open>TypeError\<close> without a client or a config.\<close>

definition client_correlationId :: "TelemetryClient option \<Rightarrow> error + string" where
  "client_correlationId client =
     (case client of
        None \<Rightarrow> Inl TypeError
      | Some c \<Rightarrow> (case config c of None \<Rightarrow> Inl TypeError | Some cfg \<Rightarrow> Inr (correlationId cfg)))"

definition addCorrelationIdHeaderFromString ::
  "RequestResponseHeaders \<Rightarrow> TelemetryClient option \<Rightarrow> request \<Rightarrow> string \<Rightarrow> error + request"
where
  "addCorrelationIdHeaderFromString hs client response correlationHeader =
     (let components = split (CHR '','') correlationHeader;
          key = requestContextSourceKey hs @ ''='';
          found = list_ex (\<lambda>v. prefix key v) components
      in if \<not> found then
           (case client_correlationId client of
              Inl e \<Rightarrow> Inl e
            | Inr cid \<Rightarrow>
                setHeader response (requestContextHeader hs)
                  (correlationHeader @ '','' @ requestContextSourceKey hs @ ''='' @ cid))
         else Inr response)"

definition safeIncludeCorrelationHeader ::
  "RequestResponseHeaders \<Rightarrow> TelemetryClient option \<Rightarrow> request \<Rightarrow> header_value \<Rightarrow>
   error + request"
where
  "safeIncludeCorrelationHeader hs client request correlationHeader =
     (let header =
            (case correlationHeader of
               HeaderString s \<Rightarrow> Some s
             | HeaderArray xs \<Rightarrow> Some (join (CHR '','') xs)
             | HeaderOther r \<Rightarrow> r
             | HeaderAbsent \<Rightarrow> None)
      in case header of
           Some h \<Rightarrow> addCorrelationIdHeaderFromString hs client request h
         | None \<Rightarrow>
             (case client_correlationId client of
                Inl e \<Rightarrow> Inl e
              | Inr cid \<Rightarrow>
                  setHeader request (requestContextHeader hs)
                    (requestContextSourceKey hs @ ''='' @ cid)))"

subsection \<open>The matching of exclusion patterns, in the words of the specification\<close>

text \<open>
  A pattern, read character by character: \<open>*\<close> matches any substring (free of line
  terminators, as \<open>.*\<close> is), a dot matches any one character that is not a line
  terminator (the dot is not escaped), and every other character matches itself.
  \<open>wildcard_match p w\<close> holds when the pattern \<open>p\<close> matches all of \<open>w\<close>.
\<close>

fun wildcard_match :: "string \<Rightarrow> string \<Rightarrow> bool" where
  "wildcard_match [] w = (w = [])"
| "wildcard_match (c # p) w =
     (if c = CHR ''*'' then
        list_ex (\<lambda>n. \<not> list_ex isLineTerminator (take n w) \<and> wildcard_match p (drop n w))
          [0..<Suc (length w)]
      else
        (case w of
           [] \<Rightarrow> False
         | x # xs \<Rightarrow>
             (if c = CHR ''.'' then \<not> isLineTerminator x else x = c) \<and> wildcard_match p xs))"

text \<open>A hostname is excluded by a pattern when the pattern matches some part of it.\<close>

definition wildcard_excludes :: "string \<Rightarrow> string \<Rightarrow> bool" where
  "wildcard_excludes p hostname =
     list_ex (\<lambda>i. list_ex (\<lambda>n. wildcard_match p (take n (drop i hostname)))
                [0..<Suc (length hostname - i)])
       [0..<Suc (length hostname)]"

text \<open>
  The patterns of the modelled fragment: no syntax character of regular expressions
  other than the dot and the star.
\<close>

definition plain_pattern :: "string \<Rightarrow> bool" where
  "plain_pattern p = list_all (\<lambda>c. c = CHR ''.'' \<or> c = CHR ''*'' \<or> \<not> isSyntaxCharacter c) p"

text \<open>The atom that a character of a plain pattern compiles to.\<close>

definition atom_of :: "char \<Rightarrow> atom" where
  "atom_of c = (if c = CHR ''*'' then AnyStar else if c = CHR ''.'' then AnyChar else Lit c)"

section \<open>EnvelopeFactory: the stack frame parser\<close>

subsection \<open>The regular expression of a frame\<close>

text \<open>
  \<open>_StackFrame.regex\<close> is
  \<^verbatim>\<open>/^([\s]+at)?(.*?)(\@|\s\(|\s)([^\(\@\n]+):([0-9]+):([0-9]+)(\)?)$/\<close>.
  The matcher below follows the backtracking of the runtime: every part of the
  expression maps what is left of the line to the list of its possible matches, in
  the order in which the runtime tries them, and the first complete match is the
  result.
\<close>

text \<open>
  A greedy repetition \<open>X*\<close> of a character class: every split of the string into a
  matched prefix and the rest, the longest prefix first.
\<close>

fun greedy_splits :: "(char \<Rightarrow> bool) \<Rightarrow> string \<Rightarrow> (string \<times> string) list" where
  "greedy_splits p [] = [([], [])]"
| "greedy_splits p (c # cs) =
     (if p c then map (\<lambda>(m, r). (c # m, r)) (greedy_splits p cs) else []) @ [([], c # cs)]"

text \<open>A lazy repetition \<open>X*?\<close>: the shortest prefix first.\<close>

fun lazy_splits :: "(char \<Rightarrow> bool) \<Rightarrow> string \<Rightarrow> (string \<times> string) list" where
  "lazy_splits p [] = [([], [])]"
| "lazy_splits p (c # cs) =
     ([], c # cs) # (if p c then map (\<lambda>(m, r). (c # m, r)) (lazy_splits p cs) else [])"

text \<open>\<open>X+\<close>: as \<open>X*\<close>, without the empty prefix.\<close>

definition greedy_plus :: "(char \<Rightarrow> bool) \<Rightarrow> string \<Rightarrow> (string \<times> string) list" where
  "greedy_plus p s = filter (\<lambda>(m, r). m \<noteq> []) (greedy_splits p s)"

text \<open>One given character.\<close>

fun lit :: "char \<Rightarrow> string \<Rightarrow> string list" where
  "lit c [] = []"
| "lit c (x # xs) = (if x = c then [xs] else [])"

text \<open>Group 1, \<open>([\s]+at)?\<close>: the group first, then without it.\<close>

definition group_at :: "string \<Rightarrow> string list" where
  "group_at s =
     concat (map (\<lambda>(w, r). if take 2 r = ''at'' then [drop 2 r] else [])
              (greedy_plus isWhiteSpace s)) @ [s]"

text \<open>Group 3, \<open>(\@|\s\(|\s)\<close>: the three alternatives in their order.\<close>

fun group_sep :: "string \<Rightarrow> string list" where
  "group_sep [] = []"
| "group_sep (c # cs) =
     (if c = CHR ''@'' then [cs] else []) @
     (if isWhiteSpace c \<and> take 1 cs = ''('' then [drop 1 cs] else []) @
     (if isWhiteSpace c then [cs] else [])"

text \<open>The class \<open>[^\(\@\n]\<close> of group 4 and the class \<open>[0-9]\<close>.\<close>

definition isFileNameChar :: "char \<Rightarrow> bool" where
  "isFileNameChar c = (c \<noteq> CHR ''('' \<and> c \<noteq> CHR ''@'' \<and> c \<noteq> CHR 0x0A)"

definition isDigit :: "char \<Rightarrow> bool" where
  "isDigit c = (c \<in> set ''0123456789'')"

text \<open>Group 7, \<open>(\)?)\<close>, followed by the end of the string.\<close>

definition group_close :: "string \<Rightarrow> string list" where
  "group_close s = lit (CHR '')'') s @ [s]"

text \<open>
  The expression from group 3 on, \<^verbatim>\<open>(\@|\s\(|\s)([^\(\@\n]+):([0-9]+):([0-9]+)(\)?)$\<close>,
  after group 2 has matched \<open>g2\<close>: its matches on what is left of the line, as the
  groups 2, 4 and 5 (the method, the file name and the line number).
\<close>

definition match_location :: "string \<Rightarrow> string \<Rightarrow> (string \<times> string \<times> string) list" where
  "match_location g2 r2 =
     [(g2, g4, g5).
        r3 \<leftarrow> group_sep r2,
        (g4, r4) \<leftarrow> greedy_plus isFileNameChar r3,
        r5 \<leftarrow> lit (CHR '':'') r4,
        (g5, r6) \<leftarrow> greedy_plus isDigit r5,
        r7 \<leftarrow> lit (CHR '':'') r6,
        (g6, r8) \<leftarrow> greedy_plus isDigit r7,
        r9 \<leftarrow> group_close r8,
        r9 = []]"

text \<open>All matches of the expression on a line, in the order of the backtracking.\<close>

definition regex_matches :: "string \<Rightarrow> (string \<times> string \<times> string) list" where
  "regex_matches frame =
     [m.
        r1 \<leftarrow> group_at frame,
        (g2, r2) \<leftarrow> lazy_splits (\<lambda>c. \<not> isLineTerminator c) r1,
        m \<leftarrow> match_location g2 r2]"

text \<open>\<open>frame.match(_StackFrame.regex)\<close>: the first match, \<open>None\<close> for \<open>null\<close>.\<close>

definition regex_match :: "string \<Rightarrow> (string \<times> string \<times> string) option" where
  "regex_match frame = (case regex_matches frame of [] \<Rightarrow> None | m # ms \<Rightarrow> Some m)"

text \<open>
  \<open>_StackFrame.regex.test(frame)\<close>. The argument is converted to a string first:
  \<open>undefined\<close> (\<open>None\<close>) is tested as the string \<open>"undefined"\<close>.
\<close>

definition regex_test_frame :: "string option \<Rightarrow> bool" where
  "regex_test_frame frame =
     (regex_match (case frame of None \<Rightarrow> ''undefined'' | Some s \<Rightarrow> s) \<noteq> None)"

subsection \<open>The class \<open>_StackFrame\<close>\<close>

record StackFrame =
  sizeInBytes :: nat
  level :: nat
  method' :: string
  assembly :: string
  fileName :: string
  line :: number

definition baseSize :: nat where
  "baseSize = 58"

text \<open>
  \<open>parseInt\<close> on a string of digits: the number they denote when it is below \<open>2^53\<close>
  (every such integer is a double); what the runtime returns for a larger one, which
  it rounds, is the parameter.
\<close>

definition parseInt :: "runtime \<Rightarrow> string \<Rightarrow> number" where
  "parseInt rt s =
     (let n = foldl (\<lambda>n c. 10 * n + (of_char c - 48)) (0 :: nat) s
      in if n < 2 ^ 53 then Finite (of_nat n) else Global_parseInt rt s)"

text \<open>\<open>x || 0\<close> on numbers.\<close>

definition num_or_0 :: "number \<Rightarrow> number" where
  "num_or_0 x = (if x = NaN \<or> x = Finite 0 then Finite 0 else x)"

text \<open>\<open>a || b\<close> on strings.\<close>

definition str_or :: "string \<Rightarrow> string \<Rightarrow> string" where
  "str_or a b = (if a \<noteq> [] then a else b)"

text \<open>
  The constructor. Without a match the fields \<open>fileName\<close> and \<open>line\<close> stay
  \<open>undefined\<close> and reading \<open>this.fileName.length\<close> raises; with \<open>frame\<close> undefined
  \<open>frame.match\<close> raises. The level counts the frames before this one and is printed
  digit by digit.
\<close>

definition new_StackFrame :: "runtime \<Rightarrow> string option \<Rightarrow> nat \<Rightarrow> error + StackFrame" where
  "new_StackFrame rt frame lvl =
     (case frame of
        None \<Rightarrow> Inl TypeError
      | Some f \<Rightarrow>
          (case regex_match f of
             None \<Rightarrow> Inl TypeError
           | Some (g2, g4, g5) \<Rightarrow>
               (let m = str_or (trim (Some g2)) ''<no_method>'';
                    fn = str_or (trim (Some g4)) ''<no_filename>'';
                    ln = num_or_0 (parseInt rt g5);
                    asm = trim frame
                in Inr \<lparr> sizeInBytes =
                           length m + length fn + length asm + baseSize +
                           length (decimal lvl) + length (number_toString rt ln),
                         level = lvl, method' = m, assembly = asm, fileName = fn, line = ln \<rparr>)))"

subsection \<open>parseStack\<close>

text \<open>
  The first loop, \<open>for (var i = 0; i <= frames.length; i++)\<close>, over the entries still
  to visit: the lines, and \<open>undefined\<close> (\<open>None\<close>) for the index \<open>frames.length\<close>. It
  returns the frames and their total size.
\<close>

fun parse_frames ::
  "runtime \<Rightarrow> string option list \<Rightarrow> nat \<Rightarrow> nat \<Rightarrow> StackFrame list \<Rightarrow> error + (StackFrame list \<times> nat)"
where
  "parse_frames rt [] lvl totalSizeInBytes parsedStack = Inr (parsedStack, totalSizeInBytes)"
| "parse_frames rt (frame # rest) lvl totalSizeInBytes parsedStack =
     (if regex_test_frame frame then
        (case new_StackFrame rt frame lvl of
           Inl e \<Rightarrow> Inl e
         | Inr parsedFrame \<Rightarrow>
             parse_frames rt rest (lvl + 1) (totalSizeInBytes + sizeInBytes parsedFrame)
               (parsedStack @ [parsedFrame]))
      else parse_frames rt rest lvl totalSizeInBytes parsedStack)"

definition exceptionParsedStackThreshold :: nat where
  "exceptionParsedStackThreshold = 32 * 1024"

text \<open>\<open>xs.splice(start, howMany)\<close>, for its effect on \<open>xs\<close>.\<close>

definition splice :: "'a list \<Rightarrow> int \<Rightarrow> int \<Rightarrow> 'a list" where
  "splice xs start howMany = take (nat start) xs @ drop (nat start + nat howMany) xs"

text \<open>\<open>xs[i]\<close>: \<open>None\<close> (\<open>undefined\<close>) out of range.\<close>

definition at_index :: "'a list \<Rightarrow> int \<Rightarrow> 'a option" where
  "at_index xs i = (if 0 \<le> i \<and> i < int (length xs) then Some (xs ! nat i) else None)"

text \<open>
  The second loop, \<open>while (left < right)\<close>, from its state. Reading \<open>sizeInBytes\<close> of
  an entry out of range would raise.
\<close>

function truncate_loop ::
  "StackFrame list \<Rightarrow> int \<Rightarrow> int \<Rightarrow> nat \<Rightarrow> int \<Rightarrow> int \<Rightarrow> error + StackFrame list"
where
  "truncate_loop parsedStack left right size' acceptedLeft acceptedRight =
     (if left < right then
        (case (at_index parsedStack left, at_index parsedStack right) of
           (Some l, Some r) \<Rightarrow>
             (let lSize = sizeInBytes l;
                  rSize = sizeInBytes r;
                  size' = size' + (lSize + rSize)
              in if size' > exceptionParsedStackThreshold then
                   (let howMany = acceptedRight - acceptedLeft + 1
                    in Inr (splice parsedStack acceptedLeft howMany))
                 else truncate_loop parsedStack (left + 1) (right - 1) size' left right)
         | _ \<Rightarrow> Inl TypeError)
      else Inr parsedStack)"
  by pat_completeness auto
termination
  by (relation "measure (\<lambda>(ps, left, right, sz, al, ar). nat (right - left))") auto

declare truncate_loop.simps [simp del]

text \<open>
  The truncation step of \<open>parseStack\<close>: what becomes of \<open>parsedStack\<close> after the first
  loop.
\<close>

definition truncate_stack :: "StackFrame list \<Rightarrow> nat \<Rightarrow> error + StackFrame list" where
  "truncate_stack parsedStack totalSizeInBytes =
     (if totalSizeInBytes > exceptionParsedStackThreshold then
        (let left = 0;
             right = int (length parsedStack) - 1;
             size' = 0;
             acceptedLeft = left;
             acceptedRight = right
         in truncate_loop parsedStack left right size' acceptedLeft acceptedRight)
      else Inr parsedStack)"

text \<open>
  \<open>parseStack\<close>. The argument is \<open>Some s\<close> for a string and \<open>None\<close> for any other value;
  the result \<open>Inr None\<close> is \<open>undefined\<close>.
\<close>

definition parseStack :: "runtime \<Rightarrow> string option \<Rightarrow> error + StackFrame list option" where
  "parseStack rt stack =
     (case stack of
        None \<Rightarrow> Inr None
      | Some s \<Rightarrow>
          (let frames = split (CHR 0x0A) s
           in case parse_frames rt (map Some frames @ [None]) 0 0 [] of
                Inl e \<Rightarrow> Inl e
              | Inr (parsedStack, totalSizeInBytes) \<Rightarrow>
                  (case truncate_stack parsedStack totalSizeInBytes of
                     Inl e \<Rightarrow> Inl e
                   | Inr parsedStack' \<Rightarrow> Inr (Some parsedStack'))))"

text \<open>
  The total size of the \<open>k\<close> frames at the top and the \<open>k\<close> frames at the bottom of a
  stack: what is left of it when the frames in between are removed.
\<close>

definition outer_frames :: "nat \<Rightarrow> StackFrame list \<Rightarrow> StackFrame list" where
  "outer_frames k fs = take k fs @ drop (length fs - k) fs"

definition total_size :: "StackFrame list \<Rightarrow> nat" where
  "total_size fs = sum_list (map sizeInBytes fs)"

section \<open>EnvelopeFactory: telemetry, contracts and the envelope\<close>

text \<open>
  A telemetry object, with the fields of the six telemetry types side by side: the
  source casts the object to the type that \<open>telemetryType\<close> names and checks nothing.
  Fields that are only copied are values; \<open>None\<close> is \<open>undefined\<close>.
\<close>

record JSError =
  error_message :: jsval
  error_name :: jsval
  error_stack :: "string option"

record Telemetry =
  t_properties :: "(string \<times> jsval) list option"
  t_tagOverrides :: "(string \<times> string) list option"
  t_message :: jsval
  t_severity :: "number option"
  t_name :: jsval
  t_data :: jsval
  t_target :: jsval
  t_duration :: number
  t_success :: jsval
  t_dependencyTypeName :: jsval
  t_dependencyId :: jsval
  t_measurements :: jsval
  t_exception :: "JSError option"
  t_id :: jsval
  t_url :: jsval
  t_source :: jsval
  t_resultCode :: jsval
  t_count :: "number option"
  t_max :: "number option"
  t_min :: "number option"
  t_stdDev :: "number option"
  t_value :: "number option"

record ExceptionDetails =
  message :: jsval
  typeName :: jsval
  parsedStack :: "StackFrame list option"
  hasFullStack :: bool

text \<open>
  A data point: \<open>count\<close>, \<open>kind\<close>, \<open>max\<close>, \<open>min\<close>, \<open>name\<close>, \<open>stdDev\<close> and \<open>value\<close>, in
  the order in which \<open>createMetricData\<close> sets them.
\<close>

datatype DataPoint =
  DataPoint "number option" number "number option" "number option" jsval "number option"
    "number option"

text \<open>
  The bodies, apart from their \<open>properties\<close>. The arguments are, in this order:
  \<open>MessageData\<close>: message, severityLevel;
  \<open>RemoteDependencyData\<close>: name, data, target, duration, success, type, id;
  \<open>EventData\<close>: name, measurements;
  \<open>ExceptionData\<close>: severityLevel, measurements, exceptions;
  \<open>RequestData\<close>: id, name, url, source, duration, responseCode, success;
  \<open>MetricData\<close>: metrics.
\<close>

datatype body =
    MessageData jsval "number option"
  | RemoteDependencyData jsval jsval jsval string jsval jsval jsval
  | EventData jsval jsval
  | ExceptionData number jsval "ExceptionDetails list"
  | RequestData jsval jsval jsval jsval string jsval jsval
  | MetricData "DataPoint list"

record Domain =
  body :: body
  properties :: "(string \<times> jsval) list option"

record Data =
  baseType :: string
  baseData :: Domain

record Envelope =
  ver :: nat
  name :: string
  time :: string
  iKey :: string
  sampleRate :: number
  tags :: "(string \<times> jsval) list"
  data :: "Data option"

text \<open>
  What the code reads of the module \<open>Contracts\<close>, which is not part of the sources at
  hand: the six constants of \<open>DataTypes\<close>, two severity levels, a data point type and
  the function \<open>domainSupportsProperties\<close>. They are parameters.
\<close>

record Contracts =
  MESSAGE :: string
  REMOTE_DEPENDENCY :: string
  EVENT :: string
  EXCEPTION :: string
  REQUEST :: string
  METRIC :: string
  SeverityLevel_Information :: number
  SeverityLevel_Error :: number
  DataPointType_Aggregation :: number
  domainSupportsProperties :: "Domain \<Rightarrow> bool"

text \<open>The client context and the ambient correlation context.\<close>

record ContextTagKeys =
  operationId :: string
  operationName :: string
  operationParentId :: string

record Context =
  context_tags :: "(string \<times> string) list option"
  context_keys :: ContextTagKeys

record Operation =
  operation_id :: string
  operation_name :: string
  operation_parentId :: string

record CorrelationContext =
  operation :: Operation

text \<open>
  The surroundings of a call of \<open>createEnvelope\<close>: the runtime, the contracts, what
  \<open>CorrelationContextManager.getCurrentContext()\<close> returns and what
  \<open>(new Date()).toISOString()\<close> returns.
\<close>

record surroundings =
  the_runtime :: runtime
  the_contracts :: Contracts
  getCurrentContext :: "CorrelationContext option"
  current_time :: string

section \<open>EnvelopeFactory: the converters\<close>

text \<open>\<open>isNaN(x)\<close> for a number or \<open>undefined\<close>.\<close>

definition isNaN_opt :: "number option \<Rightarrow> bool" where
  "isNaN_opt x = (case x of None \<Rightarrow> True | Some n \<Rightarrow> isNaN n)"

definition createTraceData :: "Contracts \<Rightarrow> Telemetry \<Rightarrow> Data" where
  "createTraceData C telemetry =
     \<lparr> baseType = MESSAGE C,
       baseData =
         \<lparr> body = MessageData (t_message telemetry)
                   (if \<not> isNaN_opt (t_severity telemetry) then t_severity telemetry
                    else Some (SeverityLevel_Information C)),
           properties = t_properties telemetry \<rparr> \<rparr>"

definition createDependencyData :: "Contracts \<Rightarrow> runtime \<Rightarrow> Telemetry \<Rightarrow> Data" where
  "createDependencyData C rt telemetry =
     \<lparr> baseType = REMOTE_DEPENDENCY C,
       baseData =
         \<lparr> body = RemoteDependencyData (t_name telemetry) (t_data telemetry)
                   (t_target telemetry) (msToTimeSpan rt (t_duration telemetry))
                   (t_success telemetry) (t_dependencyTypeName telemetry)
                   (t_dependencyId telemetry),
           properties = t_properties telemetry \<rparr> \<rparr>"

definition createEventData :: "Contracts \<Rightarrow> Telemetry \<Rightarrow> Data" where
  "createEventData C telemetry =
     \<lparr> baseType = EVENT C,
       baseData =
         \<lparr> body = EventData (t_name telemetry) (t_measurements telemetry),
           properties = t_properties telemetry \<rparr> \<rparr>"

text \<open>Reading \<open>telemetry.exception["stack"]\<close> raises without an exception.\<close>

definition createExceptionData :: "Contracts \<Rightarrow> runtime \<Rightarrow> Telemetry \<Rightarrow> error + Data" where
  "createExceptionData C rt telemetry =
     (case t_exception telemetry of
        None \<Rightarrow> Inl TypeError
      | Some exn \<Rightarrow>
          (let stack = error_stack exn
           in case parseStack rt stack of
                Inl e \<Rightarrow> Inl e
              | Inr ps \<Rightarrow>
                  (let exceptionDetails =
                         \<lparr> message = error_message exn,
                           typeName = error_name exn,
                           parsedStack = ps,
                           hasFullStack = (case ps of None \<Rightarrow> False | Some fs \<Rightarrow> length fs > 0) \<rparr>
                   in Inr \<lparr> baseType = EXCEPTION C,
                            baseData =
                              \<lparr> body = ExceptionData (SeverityLevel_Error C)
                                        (t_measurements telemetry) ([] @ [exceptionDetails]),
                                properties = t_properties telemetry \<rparr> \<rparr>)))"

definition createRequestData :: "Contracts \<Rightarrow> runtime \<Rightarrow> Telemetry \<Rightarrow> Data" where
  "createRequestData C rt telemetry =
     \<lparr> baseType = REQUEST C,
       baseData =
         \<lparr> body = RequestData (t_id telemetry) (t_name telemetry) (t_url telemetry)
                   (t_source telemetry) (msToTimeSpan rt (t_duration telemetry))
                   (t_resultCode telemetry) (t_success telemetry),
           properties = t_properties telemetry \<rparr> \<rparr>"

definition createMetricData :: "Contracts \<Rightarrow> Telemetry \<Rightarrow> Data" where
  "createMetricData C telemetry =
     (let metric =
            DataPoint
              (if \<not> isNaN_opt (t_count telemetry) then t_count telemetry else Some (Finite 1))
              (DataPointType_Aggregation C)
              (if \<not> isNaN_opt (t_max telemetry) then t_max telemetry else t_value telemetry)
              (if \<not> isNaN_opt (t_min telemetry) then t_min telemetry else t_value telemetry)
              (t_name telemetry)
              (if \<not> isNaN_opt (t_stdDev telemetry) then t_stdDev telemetry else Some (Finite 0))
              (t_value telemetry)
      in \<lparr> baseType = METRIC C,
           baseData = \<lparr> body = MetricData ([] @ [metric]), properties = t_properties telemetry \<rparr> \<rparr>)"

section \<open>EnvelopeFactory.getTags\<close>

text \<open>
  The tags of the context and the overrides are maps from strings to strings
  (\<open>{ [key: string]: string }\<close>); as the own properties of an object they are:
\<close>

definition as_values :: "(string \<times> string) list \<Rightarrow> (string \<times> jsval) list" where
  "as_values ts = map (\<lambda>(k, v). (k, JSString v)) ts"

text \<open>
  A loop \<open>for (var key in src) newTags[key] = src[key]\<close>, on the own properties of
  \<open>newTags\<close>, a plain object. An assignment to a key the object has replaces its value
  in place and otherwise adds the key at the end; an assignment to \<open>__proto__\<close> adds
  nothing.
\<close>

definition copy_tags ::
  "(string \<times> jsval) list \<Rightarrow> (string \<times> jsval) list \<Rightarrow> (string \<times> jsval) list"
where
  "copy_tags src newTags = fold (\<lambda>(key, v) m. set_prop m key v) src newTags"

text \<open>
  \<open>newTags[key] || x\<close>: the value read under the key (an own property, or one
  inherited from \<open>Object.prototype\<close>) unless it is falsy: missing, or the empty string.
\<close>

definition tag_or :: "(string \<times> jsval) list \<Rightarrow> string \<Rightarrow> string \<Rightarrow> jsval" where
  "tag_or newTags key x = js_or (get_prop newTags key) (JSString x)"

text \<open>
  \<open>getTags\<close>, with the ambient correlation context as its first argument. With a
  correlation context and no client context, reading \<open>context.keys\<close> raises. The
  result is the own properties of \<open>newTags\<close>.
\<close>

definition getTags ::
  "CorrelationContext option \<Rightarrow> Context option \<Rightarrow> (string \<times> string) list option \<Rightarrow>
   error + (string \<times> jsval) list"
where
  "getTags correlationContext context tagOverrides =
     (let newTags = [];
          newTags =
            (case context of
               Some c \<Rightarrow>
                 (case context_tags c of
                    Some ts \<Rightarrow> copy_tags (as_values ts) newTags
                  | None \<Rightarrow> newTags)
             | None \<Rightarrow> newTags);
          newTags =
            (case tagOverrides of Some ov \<Rightarrow> copy_tags (as_values ov) newTags | None \<Rightarrow> newTags)
      in case correlationContext of
           None \<Rightarrow> Inr newTags
         | Some cc \<Rightarrow>
             (case context of
                None \<Rightarrow> Inl TypeError
              | Some c \<Rightarrow>
                  (let newTags =
                         set_prop newTags (operationId (context_keys c))
                           (tag_or newTags (operationId (context_keys c))
                              (operation_id (operation cc)));
                       newTags =
                         set_prop newTags (operationName (context_keys c))
                           (tag_or newTags (operationName (context_keys c))
                              (operation_name (operation cc)));
                       newTags =
                         set_prop newTags (operationParentId (context_keys c))
                           (tag_or newTags (operationParentId (context_keys c))
                              (operation_parentId (operation cc)))
                   in Inr newTags)))"

text \<open>
  \<open>getTags\<close> once more, on a store of objects: an object is given by its own
  properties, an address is an index of the store, and the tags of the context and the
  overrides are given by their addresses (the objects there hold strings). The object
  literal \<open>{}\<close> allocates a new object at the end of the store, and every assignment
  \<open>newTags[key] = ...\<close> writes to that object.
\<close>

type_synonym store = "(string \<times> jsval) list list"

definition store_write :: "store \<Rightarrow> nat \<Rightarrow> string \<Rightarrow> jsval \<Rightarrow> store" where
  "store_write s a key v = s[a := set_prop (s ! a) key v]"

definition store_copy :: "nat \<Rightarrow> nat \<Rightarrow> store \<Rightarrow> store" where
  "store_copy src newTags s = fold (\<lambda>(key, v) s'. store_write s' newTags key v) (s ! src) s"

definition store_fill :: "nat \<Rightarrow> string \<Rightarrow> string \<Rightarrow> store \<Rightarrow> store" where
  "store_fill newTags key x s = store_write s newTags key (tag_or (s ! newTags) key x)"

definition getTags_store ::
  "store \<Rightarrow> CorrelationContext option \<Rightarrow> (nat option \<times> ContextTagKeys) option \<Rightarrow> nat option \<Rightarrow>
   error + store \<times> nat"
where
  "getTags_store s correlationContext context tagOverrides =
     (let newTags = length s;
          s = s @ [[]];
          s =
            (case context of
               Some (ctags, ckeys) \<Rightarrow>
                 (case ctags of Some ts \<Rightarrow> store_copy ts newTags s | None \<Rightarrow> s)
             | None \<Rightarrow> s);
          s = (case tagOverrides of Some ov \<Rightarrow> store_copy ov newTags s | None \<Rightarrow> s)
      in case correlationContext of
           None \<Rightarrow> Inr (s, newTags)
         | Some cc \<Rightarrow>
             (case context of
                None \<Rightarrow> Inl TypeError
              | Some (ctags, ckeys) \<Rightarrow>
                  (let s = store_fill newTags (operationId ckeys) (operation_id (operation cc)) s;
                       s = store_fill newTags (operationName ckeys) (operation_name (operation cc)) s;
                       s = store_fill newTags (operationParentId ckeys)
                             (operation_parentId (operation cc)) s
                   in Inr (s, newTags))))"

section \<open>EnvelopeFactory.createEnvelope\<close>

text \<open>
  The \<open>switch\<close> on \<open>telemetryType\<close>: the first case whose constant equals it; \<open>data\<close>
  stays \<open>null\<close> (\<open>None\<close>) when there is none.
\<close>

definition convert ::
  "Contracts \<Rightarrow> runtime \<Rightarrow> Telemetry \<Rightarrow> string \<Rightarrow> error + Data option"
where
  "convert C rt telemetry telemetryType =
     (if telemetryType = MESSAGE C then Inr (Some (createTraceData C telemetry))
      else if telemetryType = REMOTE_DEPENDENCY C then Inr (Some (createDependencyData C rt telemetry))
      else if telemetryType = EVENT C then Inr (Some (createEventData C telemetry))
      else if telemetryType = EXCEPTION C then
        (case createExceptionData C rt telemetry of Inl e \<Rightarrow> Inl e | Inr d \<Rightarrow> Inr (Some d))
      else if telemetryType = REQUEST C then Inr (Some (createRequestData C rt telemetry))
      else if telemetryType = METRIC C then Inr (Some (createMetricData C telemetry))
      else Inr None)"

text \<open>
  The merge of the common properties into the properties of the body (the block
  under \<open>if (data && data.baseData)\<close>): all of them when the body has none, and
  otherwise, key by key, those for which \<open>properties[name]\<close> is falsy. The
  properties of the body are those of the telemetry object, a plain object:
  \<open>properties[name]\<close> reads an own property or one inherited from \<open>Object.prototype\<close>.
\<close>

definition merge_step :: "string \<times> string \<Rightarrow> (string \<times> jsval) list \<Rightarrow> (string \<times> jsval) list" where
  "merge_step = (\<lambda>(name', v) ps.
     if \<not> truthy (get_prop ps name') then set_prop ps name' (JSString v) else ps)"

definition merge_properties ::
  "(string \<times> jsval) list option \<Rightarrow> (string \<times> string) list \<Rightarrow> (string \<times> jsval) list"
where
  "merge_properties bodyProperties commonProperties =
     (case bodyProperties of
        None \<Rightarrow> as_values commonProperties
      | Some ps \<Rightarrow> fold merge_step commonProperties ps)"

text \<open>
  The statement \<open>if (commonProperties && ...) { ... }\<close>. With common properties and
  \<open>data\<close> still \<open>null\<close> (\<open>None\<close>), reading \<open>data.baseData\<close> raises. The merged
  properties are handed to \<open>validateStringMap\<close> as an object; its result, a map of
  strings or \<open>undefined\<close>, becomes the properties of the body.
\<close>

definition add_common_properties ::
  "surroundings \<Rightarrow> (string \<times> string) list option \<Rightarrow> Data option \<Rightarrow> error + Data option"
where
  "add_common_properties env commonProperties data' =
     (case commonProperties of
        None \<Rightarrow> Inr data'
      | Some cp \<Rightarrow>
          (case data' of
             None \<Rightarrow> Inl TypeError
           | Some d \<Rightarrow>
               (if domainSupportsProperties (the_contracts env) (baseData d) then
                  (let merged = merge_properties (properties (baseData d)) cp
                   in case validateStringMap (the_runtime env)
                             (JSObject None None ''Object'' merged) of
                        Inl e \<Rightarrow> Inl e
                      | Inr m \<Rightarrow>
                          Inr (Some (d\<lparr> baseData := (baseData d)
                                 \<lparr> properties := map_option as_values m \<rparr> \<rparr>)))
                else Inr data')))"

text \<open>
  \<open>createEnvelope\<close>. With \<open>data\<close> still \<open>null\<close> when the name of the envelope is
  computed, reading \<open>data.baseType\<close> raises.
\<close>

definition createEnvelope ::
  "surroundings \<Rightarrow> Telemetry \<Rightarrow> string \<Rightarrow> (string \<times> string) list option \<Rightarrow> Context option \<Rightarrow>
   Config option \<Rightarrow> error + Envelope"
where
  "createEnvelope env telemetry telemetryType commonProperties context cfg =
     (case convert (the_contracts env) (the_runtime env) telemetry telemetryType of
        Inl e \<Rightarrow> Inl e
      | Inr data0 \<Rightarrow>
          (case add_common_properties env commonProperties data0 of
             Inl e \<Rightarrow> Inl e
           | Inr data' \<Rightarrow>
               (let iKey' =
                      (case cfg of
                         Some c \<Rightarrow> (case instrumentationKey c of Some k \<Rightarrow> k | None \<Rightarrow> [])
                       | None \<Rightarrow> [])
                in case data' of
                     None \<Rightarrow> Inl TypeError
                   | Some d \<Rightarrow>
                       (case getTags (getCurrentContext env) context (t_tagOverrides telemetry) of
                          Inl e \<Rightarrow> Inl e
                        | Inr newTags \<Rightarrow>
                            Inr \<lparr> ver = 1,
                                  name =
                                    ''Microsoft.ApplicationInsights.'' @
                                    filter (\<lambda>c. c \<noteq> CHR ''-'') iKey' @ ''.'' @
                                    take (length (baseType d) - 4) (baseType d),
                                  time = current_time env,
                                  iKey = iKey',
                                  sampleRate =
                                    (case cfg of
                                       Some c \<Rightarrow> samplingPercentage c
                                     | None \<Rightarrow> Finite 100),
                                  tags = newTags,
                                  data = data' \<rparr>))))"

section \<open>Sample values\<close>

text \<open>
  Concrete surroundings and inputs, for the instances at which the theorems below are
  evaluated: the six type names \<open>MessageData\<close>, \<open>RemoteDependencyData\<close>, \<open>EventData\<close>,
  \<open>ExceptionData\<close>, \<open>RequestData\<close> and \<open>MetricData\<close>, a telemetry object with every field
  undefined, a client context with two tags, and a correlation context.
\<close>

definition sample_runtime :: runtime where
  "sample_runtime =
     \<lparr>Number_toString = (\<lambda>n. ''0''), Global_parseInt = (\<lambda>s. Finite (2 ^ 53)),
      JSON_stringify = (\<lambda>v. Inr (Some ''{}'')),
      url_hostname = (\<lambda>u. None)\<rparr>"

definition sample_contracts :: Contracts where
  "sample_contracts =
     \<lparr>MESSAGE = ''MessageData'', REMOTE_DEPENDENCY = ''RemoteDependencyData'',
      EVENT = ''EventData'', EXCEPTION = ''ExceptionData'', REQUEST = ''RequestData'',
      METRIC = ''MetricData'', SeverityLevel_Information = Finite 1,
      SeverityLevel_Error = Finite 3, DataPointType_Aggregation = Finite 1,
      domainSupportsProperties = (\<lambda>d. True)\<rparr>"

definition sample_surroundings :: "CorrelationContext option \<Rightarrow> surroundings" where
  "sample_surroundings cc =
     \<lparr>the_runtime = sample_runtime, the_contracts = sample_contracts,
      getCurrentContext = cc, current_time = ''2020-01-01T00:00:00.000Z''\<rparr>"

definition sample_telemetry :: "(string \<times> jsval) list option \<Rightarrow> Telemetry" where
  "sample_telemetry ps =
     \<lparr>t_properties = ps, t_tagOverrides = None, t_message = JSUndefined, t_severity = None,
      t_name = JSUndefined, t_data = JSUndefined, t_target = JSUndefined,
      t_duration = Finite 0, t_success = JSUndefined, t_dependencyTypeName = JSUndefined,
      t_dependencyId = JSUndefined, t_measurements = JSUndefined, t_exception = None,
      t_id = JSUndefined, t_url = JSUndefined, t_source = JSUndefined,
      t_resultCode = JSUndefined, t_count = None, t_max = None, t_min = None,
      t_stdDev = None, t_value = None\<rparr>"

definition sample_context :: Context where
  "sample_context =
     \<lparr>context_tags = Some [(''ai.cloud.role'', ''web''), (''ai.operation.name'', ''default'')],
      context_keys =
        \<lparr>operationId = ''ai.operation.id'', operationName = ''ai.operation.name'',
         operationParentId = ''ai.operation.parentId''\<rparr>\<rparr>"

definition sample_correlation :: CorrelationContext where
  "sample_correlation =
     \<lparr>operation =
        \<lparr>operation_id = ''op1'', operation_name = ''GET /'', operation_parentId = ''parent1''\<rparr>\<rparr>"

definition sample_config :: Config where
  "sample_config =
     \<lparr>instrumentationKey = Some ''1aa11111-bbbb-1ccc-8ddd-eeeeffff3333'',
      samplingPercentage = Finite 100, correlationId = ''cid-v1:1'',
      correlationHeaderExcludedDomains = None\<rparr>"

section \<open>Properties of Util.msToTimeSpan\<close>

lemma decimal_lt10: "n < 10 \<Longrightarrow> decimal n = [''0123456789'' ! n]"
  by (subst decimal.simps) simp

lemma decimal_ge10:
  "10 \<le> n \<Longrightarrow> decimal n = decimal (n div 10) @ [''0123456789'' ! (n mod 10)]"
  by (subst decimal.simps) simp

lemma decimal_not_Nil: "decimal n \<noteq> []"
  by (subst decimal.simps) simp

lemma length_decimal_lt100: "n < 100 \<Longrightarrow> length (decimal n) = (if n < 10 then 1 else 2)"
proof (cases "n < 10")
  case True
  then show ?thesis by (simp add: decimal_lt10)
next
  case False
  assume "n < 100"
  with False have "10 \<le> n" "n div 10 < 10" by auto
  then show ?thesis using False by (simp add: decimal_ge10 decimal_lt10)
qed




subsection \<open>The digits of a number at a fixed width\<close>

lemma length_padded: "length (padded j n) = j"
  by (induction j arbitrary: n) simp_all

lemma padded_0: "padded j 0 = replicate j (CHR ''0'')"
  by (induction j) (simp_all add: replicate_append_same)

lemma length_decimal_le: "0 < j \<Longrightarrow> n < 10 ^ j \<Longrightarrow> length (decimal n) \<le> j"
proof (induction j arbitrary: n)
  case 0
  then show ?case by simp
next
  case (Suc j)
  show ?case
  proof (cases "n < 10")
    case True
    then show ?thesis by (simp add: decimal_lt10)
  next
    case False
    then have j: "0 < j" using Suc.prems by (cases j) simp_all
    have "n div 10 < 10 ^ j" using Suc.prems by (simp add: less_mult_imp_div_less mult.commute)
    then have "length (decimal (n div 10)) \<le> j" using j by (intro Suc.IH)
    then show ?thesis using False by (simp add: decimal_ge10)
  qed
qed

lemma padded_eq_decimal:
  "0 < j \<Longrightarrow> n < 10 ^ j \<Longrightarrow>
   padded j n = replicate (j - length (decimal n)) (CHR ''0'') @ decimal n"
proof (induction j arbitrary: n)
  case 0
  then show ?case by simp
next
  case (Suc j)
  show ?case
  proof (cases "n < 10")
    case True
    then show ?thesis by (simp add: decimal_lt10 padded_0)
  next
    case False
    then have j: "0 < j" using Suc.prems by (cases j) simp_all
    have d: "n div 10 < 10 ^ j" using Suc.prems by (simp add: less_mult_imp_div_less mult.commute)
    then have l: "length (decimal (n div 10)) \<le> j" using j by (intro length_decimal_le)
    have "padded j (n div 10) =
        replicate (j - length (decimal (n div 10))) (CHR ''0'') @ decimal (n div 10)"
      using j d by (rule Suc.IH)
    then show ?thesis using False l by (simp add: decimal_ge10 Suc_diff_le)
  qed
qed

lemma decimal_split:
  "10 ^ j \<le> n \<Longrightarrow> decimal n = decimal (n div 10 ^ j) @ padded j (n mod 10 ^ j)"
proof (induction j arbitrary: n)
  case 0
  then show ?case by simp
next
  case (Suc j)
  then have n: "10 \<le> n"
    by (metis (no_types, opaque_lifting) One_nat_def Suc_leI le_trans nat_one_le_power
        power_Suc mult.right_neutral mult_le_mono2 zero_less_numeral)
  have "10 ^ j \<le> n div 10" using Suc.prems by (simp add: less_eq_div_iff_mult_less_eq mult.commute)
  then have "decimal (n div 10) = decimal (n div 10 div 10 ^ j) @ padded j (n div 10 mod 10 ^ j)"
    by (rule Suc.IH)
  moreover have "n div 10 div 10 ^ j = n div 10 ^ Suc j"
    by (simp add: div_mult2_eq)
  moreover have "n mod 10 ^ Suc j div 10 = n div 10 mod 10 ^ j"
    by (simp add: mod_mult2_eq)
  moreover have "n mod 10 ^ Suc j mod 10 = n mod 10"
    by (simp add: mod_mod_cancel)
  ultimately show ?case using n by (simp add: decimal_ge10)
qed

lemma padded_2:
  "n < 100 \<Longrightarrow> (if length (decimal n) < 2 then ''0'' @ decimal n else decimal n) = padded 2 n"
  using padded_eq_decimal [of 2 n] length_decimal_lt100 [of n]
  by (simp split: if_splits)

subsection \<open>The text of \<open>toFixed\<close>\<close>

lemma toFixed_digits:
  assumes "0 \<le> x" "x < 10 ^ 21" "0 < f"
  shows "toFixed rt f (Finite x) =
     decimal (nat \<lfloor>x * 10 ^ f + 1 / 2\<rfloor> div 10 ^ f) @ ''.'' @
     padded f (nat \<lfloor>x * 10 ^ f + 1 / 2\<rfloor> mod 10 ^ f)"
proof -
  define n where "n = nat \<lfloor>x * 10 ^ f + 1 / 2\<rfloor>"
  have t: "toFixed rt f (Finite x) =
      (let m = decimal n;
           m' = (if length m \<le> f then replicate (f + 1 - length m) (CHR ''0'') @ m else m);
           k = length m'
       in take (k - f) m' @ ''.'' @ drop (k - f) m')"
    using assms by (simp add: n_def Let_def)
  show ?thesis
  proof (cases "n < 10 ^ f")
    case True
    then have l: "length (decimal n) \<le> f" using assms(3) by (intro length_decimal_le)
    have p: "padded f n = replicate (f - length (decimal n)) (CHR ''0'') @ decimal n"
      using assms(3) True by (rule padded_eq_decimal)
    have r: "replicate (f + 1 - length (decimal n)) (CHR ''0'') =
        CHR ''0'' # replicate (f - length (decimal n)) (CHR ''0'')"
      using l by (simp add: Suc_diff_le)
    show ?thesis
      unfolding t n_def [symmetric] using True l
      by (simp add: Let_def p r decimal_lt10)
  next
    case False
    then have s: "decimal n = decimal (n div 10 ^ f) @ padded f (n mod 10 ^ f)"
      by (intro decimal_split) simp
    have "length (decimal n) = length (decimal (n div 10 ^ f)) + f"
      by (subst s) (simp add: length_padded)
    moreover have "0 < length (decimal (n div 10 ^ f))"
      using decimal_not_Nil by simp
    ultimately have l: "\<not> length (decimal n) \<le> f"
      "length (decimal n) - f = length (decimal (n div 10 ^ f))" by simp_all
    show ?thesis
      unfolding t n_def [symmetric] using l
      by (simp add: Let_def) (simp add: s)
  qed
qed

subsection \<open>The removal of zeros at the end\<close>






subsection \<open>Numbers that need no rounding and no parameter\<close>

lemma number_toString_nat:
  "n < 2 ^ 53 \<Longrightarrow> number_toString rt (Finite (of_int (int n))) = decimal n"
proof -
  assume "n < 2 ^ 53"
  then have "real n < 2 ^ 53" by (metis of_nat_less_iff of_nat_numeral of_nat_power)
  then show ?thesis by (simp add: number_toString_def intToString_def)
qed

lemma pow2_pos: "0 < pow2 k"
  by (simp add: pow2_def)

lemma round_half_even_nonneg: "0 \<le> q \<Longrightarrow> 0 \<le> round_half_even q"
  by (simp add: round_half_even_def Let_def)

lemma round_to_double_nonneg: "0 \<le> x \<Longrightarrow> 0 \<le> round_to_double x"
  using pow2_pos
  by (simp add: round_to_double_def Let_def round_half_even_nonneg less_imp_le)

subsection \<open>Evaluation\<close>

lemma bitlen_pos: "0 < x \<Longrightarrow> bitlen x = bitlen (x div 2) + 1"
  by (subst compute_bitlen) simp

lemma bitlen_nonpos: "x \<le> 0 \<Longrightarrow> bitlen x = 0"
  by (subst compute_bitlen) simp

lemmas round_to_double_eval =
  round_to_double_def binade_def pow2_def round_half_even_def Let_def bitlen_pos bitlen_nonpos







subsection \<open>The parts of the result\<close>



text \<open>The minutes and the hours: two digits.\<close>

lemma clock_text:
  assumes "0 \<le> i" "0 < c" "c \<le> 100"
  shows "(let t = toString rt (int_rem (Finite i) c) in if length t < 2 then ''0'' @ t else t) =
     padded 2 (nat (i mod c))"
proof -
  define m where "m = nat (i mod c)"
  have b: "0 \<le> i mod c" "i mod c < c" using assms by simp_all
  then have m: "m < 100" "i mod c = int m" unfolding m_def using assms(3) by simp_all
  then have "m < 2 ^ 53" by simp
  then have "number_toString rt (Finite (of_int (int m))) = decimal m"
    by (rule number_toString_nat)
  moreover have "int_rem (Finite i) c = Finite (int m)"
    using assms(1) m(2) by simp
  ultimately have t: "toString rt (int_rem (Finite i) c) = decimal m"
    by simp
  show ?thesis
    unfolding m_def [symmetric] Let_def t by (rule padded_2 [OF m(1)])
qed

text \<open>The days, printed unless there are none.\<close>

lemma days_text:
  assumes "0 \<le> d" "d < 2 ^ 53"
  shows "(if num_greater (Finite d) 0 then toString rt (Finite d) @ ''.'' else '''') =
     (if d = 0 then [] else decimal (nat d) @ ''.'')"
proof -
  have "nat d < 2 ^ 53" using assms by (simp add: nat_less_iff)
  then have "number_toString rt (Finite (of_int (int (nat d)))) = decimal (nat d)"
    by (rule number_toString_nat)
  then show ?thesis using assms(1) by auto
qed

text \<open>The result from zero on, part by part.\<close>

lemma msToTimeSpan_parts:
  assumes "0 \<le> r" and "\<lfloor>round_to_double (r / 86400000)\<rfloor> < 2 ^ 53"
  shows "msToTimeSpan rt (Finite r) =
     (if \<lfloor>round_to_double (r / 86400000)\<rfloor> = 0 then []
      else decimal (nat \<lfloor>round_to_double (r / 86400000)\<rfloor>) @ ''.'') @
     padded 2 (nat (\<lfloor>round_to_double (r / 3600000)\<rfloor> mod 24)) @ '':'' @
     padded 2 (nat (\<lfloor>round_to_double (r / 60000)\<rfloor> mod 60)) @ '':'' @
     (let sec = replace_zeros_at_end (toFixed rt 7
                  (Finite (round_to_double (r / 1000) -
                     60 * of_int \<lfloor>round_to_double (r / 1000) / 60\<rfloor>)))
      in if indexOf sec (CHR ''.'') < 2 then ''0'' @ sec else sec)"
proof -
  define x where "x = round_to_double (r / 1000)"
  define s where "s = x - 60 * of_int \<lfloor>x / 60\<rfloor>"
  define dd where "dd = \<lfloor>round_to_double (r / 86400000)\<rfloor>"
  define hh where "hh = \<lfloor>round_to_double (r / 3600000)\<rfloor>"
  define mm where "mm = \<lfloor>round_to_double (r / 60000)\<rfloor>"
  have x: "0 \<le> x" unfolding x_def using assms(1) by (intro round_to_double_nonneg) simp
  have nn: "0 \<le> dd" "0 \<le> hh" "0 \<le> mm"
    unfolding dd_def hh_def mm_def using assms(1) by (simp_all add: round_to_double_nonneg)
  have rem: "num_rem (Finite x) 60 = Finite s" unfolding s_def using x by simp
  have min: "(let t = toString rt (int_rem (Finite mm) 60) in if length t < 2 then ''0'' @ t else t) =
      padded 2 (nat (mm mod 60))"
    using nn by (intro clock_text) simp_all
  have hour: "(let t = toString rt (int_rem (Finite hh) 24) in if length t < 2 then ''0'' @ t else t) =
      padded 2 (nat (hh mod 24))"
    using nn by (intro clock_text) simp_all
  have day: "(if num_greater (Finite dd) 0 then toString rt (Finite dd) @ ''.'' else '''') =
      (if dd = 0 then [] else decimal (nat dd) @ ''.'')"
    using nn(1) assms(2) unfolding dd_def [symmetric] by (rule days_text)
  have "msToTimeSpan rt (Finite r) =
      (if num_greater (Finite dd) 0 then toString rt (Finite dd) @ ''.'' else '''') @
      (let t = toString rt (int_rem (Finite hh) 24) in if length t < 2 then ''0'' @ t else t) @
      '':'' @
      (let t = toString rt (int_rem (Finite mm) 60) in if length t < 2 then ''0'' @ t else t) @
      '':'' @
      (let sec = replace_zeros_at_end (toFixed rt 7 (Finite s))
       in if indexOf sec (CHR ''.'') < 2 then ''0'' @ sec else sec)"
    using assms(1) rem
    by (simp add: msToTimeSpan_def isNaN_def Let_def x_def dd_def hh_def mm_def
          del: toFixed.simps num_rem.simps int_rem.simps toString.simps)
  then show ?thesis
    unfolding day hour min
    unfolding s_def x_def dd_def hh_def mm_def .
qed


lemma padded_numeral:
  "padded (numeral k) n = padded (pred_numeral k) (n div 10) @ [''0123456789'' ! (n mod 10)]"
proof -
  have "padded (Suc (pred_numeral k)) n =
      padded (pred_numeral k) (n div 10) @ [''0123456789'' ! (n mod 10)]"
    by (rule padded.simps(2))
  then show ?thesis by (simp only: numeral_eq_Suc [of k])
qed

lemma padded_1: "padded 1 n = [''0123456789'' ! (n mod 10)]"
  by simp

text \<open>
  A quotient that is not a double is rounded: 1234567890.123 becomes
  \<open>5178153039814459 / 2^22\<close>, a little below it, and the seconds are printed from
  there.
\<close>

lemma msToTimeSpan_at_1234567890123:
  "msToTimeSpan rt (Finite 1234567890123) = ''14288.23:31:30.1229999''"
proof -
  have q: "round_to_double (1234567890123 / 1000) = 5178153039814459 / 4194304"
    "\<lfloor>round_to_double (1234567890123 / 60000)\<rfloor> = 20576131"
    "\<lfloor>round_to_double (1234567890123 / 3600000)\<rfloor> = 342935"
    "\<lfloor>round_to_double (1234567890123 / 86400000)\<rfloor> = 14288"
    by (simp_all add: round_to_double_eval)
  have r: "(5178153039814459 / 4194304 :: real) -
      60 * of_int \<lfloor>(5178153039814459 / 4194304 :: real) / 60\<rfloor> = 126345019 / 4194304"
    by simp
  have n: "nat \<lfloor>(126345019 / 4194304 :: real) * 10 ^ 7 + 1 / 2\<rfloor> = 301229999"
    by simp
  have f0: "toFixed rt 7 (Finite (126345019 / 4194304)) =
      decimal (301229999 div 10 ^ 7) @ ''.'' @ padded 7 (301229999 mod 10 ^ 7)"
    unfolding n [symmetric] by (rule toFixed_digits) simp_all
  have f: "toFixed rt 7 (Finite (126345019 / 4194304)) = ''30.1229999''"
    unfolding f0 by (simp add: decimal_lt10 decimal_ge10 padded_numeral padded_1)
  have d: "decimal 14288 = ''14288''"
    by (simp add: decimal_lt10 decimal_ge10)
  have m: "msToTimeSpan rt (Finite 1234567890123) =
      decimal 14288 @ ''.'' @ padded 2 23 @ '':'' @ padded 2 31 @ '':'' @
      (let sec = replace_zeros_at_end (toFixed rt 7 (Finite (126345019 / 4194304)))
       in if indexOf sec (CHR ''.'') < 2 then ''0'' @ sec else sec)"
    using msToTimeSpan_parts [of 1234567890123 rt] unfolding q r by (simp del: toFixed.simps)
  show ?thesis
    unfolding m f d by (simp add: padded_numeral padded_1)
qed




section \<open>Properties of the correlation header merge\<close>

lemma split_not_Nil: "split d s \<noteq> []"
  by (induction s) (auto split: list.splits)

lemma split_append_sep: "split d (a @ d # b) = split d a @ split d b"
proof (induction a)
  case Nil
  show ?case by simp
next
  case (Cons c a)
  obtain w ws where w: "split d a = w # ws"
    using split_not_Nil [of d a] by (cases "split d a") auto
  with Cons show ?case by simp
qed

lemma split_no_sep: "d \<notin> set s \<Longrightarrow> split d s = [s]"
  by (induction s) auto

lemma split_prefix_no_sep:
  "d \<notin> set a \<Longrightarrow> split d (a @ b) = (a @ hd (split d b)) # tl (split d b)"
proof (induction a)
  case Nil
  then show ?case using split_not_Nil [of d b] by simp
next
  case (Cons c a)
  then show ?case by auto
qed

lemma found_after_append:
  assumes "CHR '','' \<notin> set K"
  shows "list_ex (prefix (K @ ''='')) (split (CHR '','') (h @ '','' @ K @ ''='' @ cid))"
proof -
  have "CHR '','' \<notin> set (K @ ''='')" using assms by simp
  then have "split (CHR '','') ((K @ ''='') @ cid) =
      ((K @ ''='') @ hd (split (CHR '','') cid)) # tl (split (CHR '','') cid)"
    by (rule split_prefix_no_sep)
  then have "split (CHR '','') (h @ '','' @ K @ ''='' @ cid) =
      split (CHR '','') h @ ((K @ ''='') @ hd (split (CHR '','') cid)) # tl (split (CHR '','') cid)"
    using split_append_sep [of "CHR '',''" h "K @ ''='' @ cid"] by simp
  then show ?thesis by (simp add: list_ex_iff)
qed

lemma components_after_append:
  assumes "CHR '','' \<notin> set K" "CHR '','' \<notin> set cid"
  shows "split (CHR '','') (h @ '','' @ K @ ''='' @ cid) = split (CHR '','') h @ [K @ ''='' @ cid]"
proof -
  have "CHR '','' \<notin> set (K @ ''='' @ cid)" using assms by simp
  then have "split (CHR '','') (K @ ''='' @ cid) = [K @ ''='' @ cid]" by (rule split_no_sep)
  then show ?thesis using split_append_sep [of "CHR '',''" h "K @ ''='' @ cid"] by simp
qed

lemma setHeader_accepts:
  "\<not> headersSent r \<Longrightarrow> validHeaderName nm \<Longrightarrow> validHeaderValue v \<Longrightarrow>
   setHeader r nm v = Inr (r\<lparr>headers := (headers r)(toLowerCase nm \<mapsto> v)\<rparr>)"
  by (simp add: setHeader_def)

lemma setHeader_refuses:
  "\<not> headersSent r \<Longrightarrow> validHeaderName nm \<Longrightarrow> \<not> validHeaderValue v \<Longrightarrow>
   setHeader r nm v = Inl (NodeError ''ERR_INVALID_CHAR'')"
  by (simp add: setHeader_def)

lemma setHeader_result:
  "setHeader r nm v = Inr r1 \<Longrightarrow> getHeader r1 nm = Some v"
  by (auto simp: setHeader_def getHeader_def split: if_splits)

lemma safeInclude_found:
  "list_ex (prefix (requestContextSourceKey hs @ ''='')) (split (CHR '','') h) \<Longrightarrow>
   safeIncludeCorrelationHeader hs client r (HeaderString h) = Inr r"
  by (simp add: safeIncludeCorrelationHeader_def addCorrelationIdHeaderFromString_def)

lemma safeInclude_not_found:
  "\<not> list_ex (prefix (requestContextSourceKey hs @ ''='')) (split (CHR '','') h) \<Longrightarrow>
   client_correlationId client = Inr cid \<Longrightarrow>
   safeIncludeCorrelationHeader hs client r (HeaderString h) =
     setHeader r (requestContextHeader hs) (h @ '','' @ requestContextSourceKey hs @ ''='' @ cid)"
  by (simp add: safeIncludeCorrelationHeader_def addCorrelationIdHeaderFromString_def)

text \<open>
  C6. With a client that has a configuration (so that its correlation id can be read)
  and a source key without a comma: a string header that has a component starting
  with the source key and \<open>=\<close> is left as it is, and nothing is set; for any other
  header the call sets the header to the old text followed by \<open>,key=id\<close>, which
  Node accepts when the headers have not been sent, the name of the header is a token
  and the new text has no invalid character, and refuses with \<open>ERR_INVALID_CHAR\<close>
  when only the last of these fails. When the correlation id has no comma either, the
  components of the new text are those of the old one followed by the one component
  \<open>key=id\<close>, and exactly one component starts with the key. Whenever the operation,
  applied to a request that carries the header, returns, the request has the header,
  and applying the operation again to the header it left there changes nothing.
\<close>

theorem correlation_header_merge:
  assumes cid: "client_correlationId client = Inr cid"
    and K: "CHR '','' \<notin> set (requestContextSourceKey hs)"
  shows
    "(list_ex (prefix (requestContextSourceKey hs @ ''='')) (split (CHR '','') h) \<longrightarrow>
        safeIncludeCorrelationHeader hs client r (HeaderString h) = Inr r) \<and>
     (\<not> list_ex (prefix (requestContextSourceKey hs @ ''='')) (split (CHR '','') h) \<longrightarrow>
        safeIncludeCorrelationHeader hs client r (HeaderString h) =
          setHeader r (requestContextHeader hs)
            (h @ '','' @ requestContextSourceKey hs @ ''='' @ cid) \<and>
        (\<not> headersSent r \<and> validHeaderName (requestContextHeader hs) \<longrightarrow>
           (validHeaderValue (h @ '','' @ requestContextSourceKey hs @ ''='' @ cid) \<longrightarrow>
              safeIncludeCorrelationHeader hs client r (HeaderString h) =
                Inr (r\<lparr>headers := (headers r)(toLowerCase (requestContextHeader hs) \<mapsto>
                       h @ '','' @ requestContextSourceKey hs @ ''='' @ cid)\<rparr>)) \<and>
           (\<not> validHeaderValue (h @ '','' @ requestContextSourceKey hs @ ''='' @ cid) \<longrightarrow>
              safeIncludeCorrelationHeader hs client r (HeaderString h) =
                Inl (NodeError ''ERR_INVALID_CHAR''))) \<and>
        (CHR '','' \<notin> set cid \<longrightarrow>
           split (CHR '','') (h @ '','' @ requestContextSourceKey hs @ ''='' @ cid) =
             split (CHR '','') h @ [requestContextSourceKey hs @ ''='' @ cid] \<and>
           length (filter (prefix (requestContextSourceKey hs @ ''=''))
             (split (CHR '','') (h @ '','' @ requestContextSourceKey hs @ ''='' @ cid))) = 1)) \<and>
     (\<forall>r1. safeIncludeCorrelationHeader hs client
             (r\<lparr>headers := (headers r)(toLowerCase (requestContextHeader hs) \<mapsto> h)\<rparr>)
             (HeaderString h) = Inr r1 \<longrightarrow>
        (\<exists>h1. getHeader r1 (requestContextHeader hs) = Some h1 \<and>
           safeIncludeCorrelationHeader hs client r1 (HeaderString h1) = Inr r1))"
proof (intro conjI impI allI)
  assume "list_ex (prefix (requestContextSourceKey hs @ ''='')) (split (CHR '','') h)"
  then show "safeIncludeCorrelationHeader hs client r (HeaderString h) = Inr r"
    by (rule safeInclude_found)
next
  assume "\<not> list_ex (prefix (requestContextSourceKey hs @ ''='')) (split (CHR '','') h)"
  then show "safeIncludeCorrelationHeader hs client r (HeaderString h) =
      setHeader r (requestContextHeader hs) (h @ '','' @ requestContextSourceKey hs @ ''='' @ cid)"
    using cid by (rule safeInclude_not_found)
next
  assume nf: "\<not> list_ex (prefix (requestContextSourceKey hs @ ''='')) (split (CHR '','') h)"
    and ok: "\<not> headersSent r \<and> validHeaderName (requestContextHeader hs)"
    and v: "validHeaderValue (h @ '','' @ requestContextSourceKey hs @ ''='' @ cid)"
  show "safeIncludeCorrelationHeader hs client r (HeaderString h) =
      Inr (r\<lparr>headers := (headers r)(toLowerCase (requestContextHeader hs) \<mapsto>
             h @ '','' @ requestContextSourceKey hs @ ''='' @ cid)\<rparr>)"
    using safeInclude_not_found [OF nf cid, of r] setHeader_accepts [OF _ _ v, of r] ok
    by simp
next
  assume nf: "\<not> list_ex (prefix (requestContextSourceKey hs @ ''='')) (split (CHR '','') h)"
    and ok: "\<not> headersSent r \<and> validHeaderName (requestContextHeader hs)"
    and v: "\<not> validHeaderValue (h @ '','' @ requestContextSourceKey hs @ ''='' @ cid)"
  show "safeIncludeCorrelationHeader hs client r (HeaderString h) =
      Inl (NodeError ''ERR_INVALID_CHAR'')"
    using safeInclude_not_found [OF nf cid, of r] setHeader_refuses [OF _ _ v, of r] ok
    by simp
next
  assume "CHR '','' \<notin> set cid"
  with K show "split (CHR '','') (h @ '','' @ requestContextSourceKey hs @ ''='' @ cid) =
      split (CHR '','') h @ [requestContextSourceKey hs @ ''='' @ cid]"
    by (intro components_after_append)
next
  assume nf: "\<not> list_ex (prefix (requestContextSourceKey hs @ ''='')) (split (CHR '','') h)"
    and c: "CHR '','' \<notin> set cid"
  have "filter (prefix (requestContextSourceKey hs @ ''='')) (split (CHR '','') h) = []"
    using nf by (simp add: list_ex_iff filter_empty_conv)
  then show "length (filter (prefix (requestContextSourceKey hs @ ''=''))
      (split (CHR '','') (h @ '','' @ requestContextSourceKey hs @ ''='' @ cid))) = 1"
    using components_after_append [OF K c, of h] by simp
next
  fix r1
  let ?H = "requestContextHeader hs"
  let ?K = "requestContextSourceKey hs"
  let ?r0 = "r\<lparr>headers := (headers r)(toLowerCase ?H \<mapsto> h)\<rparr>"
  assume 1: "safeIncludeCorrelationHeader hs client ?r0 (HeaderString h) = Inr r1"
  show "\<exists>h1. getHeader r1 ?H = Some h1 \<and>
      safeIncludeCorrelationHeader hs client r1 (HeaderString h1) = Inr r1"
  proof (cases "list_ex (prefix (?K @ ''='')) (split (CHR '','') h)")
    case True
    then have "safeIncludeCorrelationHeader hs client ?r0 (HeaderString h) = Inr ?r0"
      by (rule safeInclude_found)
    with 1 have r1: "r1 = ?r0" by simp
    have "getHeader ?r0 ?H = Some h" by (simp add: getHeader_def)
    moreover have "safeIncludeCorrelationHeader hs client ?r0 (HeaderString h) = Inr ?r0"
      using True by (rule safeInclude_found)
    ultimately show ?thesis unfolding r1 by blast
  next
    case False
    let ?h1 = "h @ '','' @ ?K @ ''='' @ cid"
    have "setHeader ?r0 ?H ?h1 = Inr r1"
      using safeInclude_not_found [OF False cid, of ?r0] 1 by simp
    then have "getHeader r1 ?H = Some ?h1" by (rule setHeader_result)
    moreover have "list_ex (prefix (?K @ ''='')) (split (CHR '','') ?h1)"
      using K by (rule found_after_append)
    then have "safeIncludeCorrelationHeader hs client r1 (HeaderString ?h1) = Inr r1"
      by (rule safeInclude_found)
    ultimately show ?thesis by blast
  qed
qed

theorem correlation_header_merge_witness:
  "safeIncludeCorrelationHeader
     \<lparr>requestContextHeader = ''Request-Context'', requestContextSourceKey = ''appId''\<rparr>
     (Some \<lparr>config = Some sample_config\<rparr>)
     \<lparr>headersSent = False, headers = Map.empty\<rparr> (HeaderString ''foo=bar'') =
   Inr \<lparr>headersSent = False, headers = [''request-context'' \<mapsto> ''foo=bar,appId=cid-v1:1'']\<rparr> \<and>
   safeIncludeCorrelationHeader
     \<lparr>requestContextHeader = ''Request-Context'', requestContextSourceKey = ''appId''\<rparr>
     (Some \<lparr>config = Some sample_config\<rparr>)
     \<lparr>headersSent = False, headers = Map.empty\<rparr> (HeaderString ''appId=other'') =
   Inr \<lparr>headersSent = False, headers = Map.empty\<rparr> \<and>
   safeIncludeCorrelationHeader
     \<lparr>requestContextHeader = ''Request-Context'', requestContextSourceKey = ''appId''\<rparr>
     (Some \<lparr>config = Some sample_config\<rparr>)
     \<lparr>headersSent = False, headers = Map.empty\<rparr> (HeaderString [CHR ''a'', CHR 0x0A]) =
   Inl (NodeError ''ERR_INVALID_CHAR'')"
  using
    correlation_header_merge [of "Some \<lparr>config = Some sample_config\<rparr>" "''cid-v1:1''"
      "\<lparr>requestContextHeader = ''Request-Context'', requestContextSourceKey = ''appId''\<rparr>"
      "''foo=bar''" "\<lparr>headersSent = False, headers = Map.empty\<rparr>"]
    correlation_header_merge [of "Some \<lparr>config = Some sample_config\<rparr>" "''cid-v1:1''"
      "\<lparr>requestContextHeader = ''Request-Context'', requestContextSourceKey = ''appId''\<rparr>"
      "''appId=other''" "\<lparr>headersSent = False, headers = Map.empty\<rparr>"]
    correlation_header_merge [of "Some \<lparr>config = Some sample_config\<rparr>" "''cid-v1:1''"
      "\<lparr>requestContextHeader = ''Request-Context'', requestContextSourceKey = ''appId''\<rparr>"
      "[CHR ''a'', CHR 0x0A]" "\<lparr>headersSent = False, headers = Map.empty\<rparr>"]
  by (simp add: client_correlationId_def sample_config_def setHeader_def validHeaderName_def
        validHeaderValue_def isTokenChar_def isInvalidHeaderChar_def toLowerCase_def)

section \<open>Properties of Util.canIncludeCorrelationHeader\<close>

lemma replace_dots_id: "replace_dots s = s"
  by (induction s) (auto simp: replace_dots_def)

lemma replace_stars_Cons:
  "replace_stars (c # s) = (if c = CHR ''*'' then ''.*'' else [c]) @ replace_stars s"
  by (simp add: replace_stars_def)

lemma replace_stars_Nil: "replace_stars [] = []"
  by (simp add: replace_stars_def)

lemma replace_stars_no_star_first: "replace_stars s \<noteq> CHR ''*'' # t"
  by (cases s) (auto simp: replace_stars_Cons replace_stars_Nil)

lemma RegExp_plain:
  "plain_pattern p \<Longrightarrow> RegExp (replace_stars p) = Some (map atom_of p)"
proof (induction p)
  case Nil
  show ?case by (simp add: replace_stars_Nil)
next
  case (Cons c p)
  then have IH: "RegExp (replace_stars p) = Some (map atom_of p)"
    and c: "c = CHR ''.'' \<or> c = CHR ''*'' \<or> \<not> isSyntaxCharacter c"
    by (simp_all add: plain_pattern_def)
  consider "c = CHR ''*''" | "c = CHR ''.''" | "c \<noteq> CHR ''*''" "c \<noteq> CHR ''.''" "\<not> isSyntaxCharacter c"
    using c by blast
  then show ?case
  proof cases
    case 1
    then show ?thesis using IH by (simp add: replace_stars_Cons atom_of_def)
  next
    case 2
    show ?thesis
    proof (cases "replace_stars p")
      case Nil
      with IH 2 show ?thesis by (simp add: replace_stars_Cons atom_of_def)
    next
      case (Cons d ds)
      then have "d \<noteq> CHR ''*''" using replace_stars_no_star_first [of p ds] by auto
      with Cons IH 2 show ?thesis by (simp add: replace_stars_Cons atom_of_def)
    qed
  next
    case 3
    then show ?thesis using IH by (simp add: replace_stars_Cons atom_of_def)
  qed
qed

lemma wildcard_match_star_unfold:
  "wildcard_match (CHR ''*'' # p) w \<longleftrightarrow>
     (\<exists>n\<le>length w. (\<forall>x\<in>set (take n w). \<not> isLineTerminator x) \<and> wildcard_match p (drop n w))"
  by (auto simp: list_ex_iff less_Suc_eq_le simp del: upt_Suc)

lemma wildcard_match_dot:
  "wildcard_match (CHR ''.'' # p) w \<longleftrightarrow>
     (\<exists>x xs. w = x # xs \<and> \<not> isLineTerminator x \<and> wildcard_match p xs)"
  by (simp split: list.splits)

lemma wildcard_match_lit:
  "c \<noteq> CHR ''*'' \<Longrightarrow> c \<noteq> CHR ''.'' \<Longrightarrow>
   wildcard_match (c # p) w \<longleftrightarrow> (\<exists>xs. w = c # xs \<and> wildcard_match p xs)"
  by (auto split: list.splits)

declare wildcard_match.simps(2) [simp del]

lemma wildcard_match_star:
  "wildcard_match (CHR ''*'' # p) w \<longleftrightarrow>
     (\<exists>a b. w = a @ b \<and> (\<forall>x\<in>set a. \<not> isLineTerminator x) \<and> wildcard_match p b)"
proof
  assume "wildcard_match (CHR ''*'' # p) w"
  then obtain n where "\<forall>x\<in>set (take n w). \<not> isLineTerminator x" "wildcard_match p (drop n w)"
    unfolding wildcard_match_star_unfold by blast
  then show "\<exists>a b. w = a @ b \<and> (\<forall>x\<in>set a. \<not> isLineTerminator x) \<and> wildcard_match p b"
    by (intro exI[of _ "take n w"] exI[of _ "drop n w"]) simp
next
  assume "\<exists>a b. w = a @ b \<and> (\<forall>x\<in>set a. \<not> isLineTerminator x) \<and> wildcard_match p b"
  then obtain a b where "w = a @ b" "\<forall>x\<in>set a. \<not> isLineTerminator x" "wildcard_match p b" by blast
  then have "length a \<le> length w \<and> (\<forall>x\<in>set (take (length a) w). \<not> isLineTerminator x) \<and>
      wildcard_match p (drop (length a) w)"
    by simp
  then show "wildcard_match (CHR ''*'' # p) w"
    unfolding wildcard_match_star_unfold by blast
qed

lemma atom_of_simps:
  "atom_of (CHR ''*'') = AnyStar" "atom_of (CHR ''.'') = AnyChar"
  "c \<noteq> CHR ''*'' \<Longrightarrow> c \<noteq> CHR ''.'' \<Longrightarrow> atom_of c = Lit c"
  by (simp_all add: atom_of_def)

lemma match_here_wildcard:
  "match_here (map atom_of p) s \<longleftrightarrow> (\<exists>w post. s = w @ post \<and> wildcard_match p w)"
proof (induction p arbitrary: s)
  case Nil
  show ?case by simp
next
  case (Cons c p)
  consider "c = CHR ''*''" | "c = CHR ''.''" | "c \<noteq> CHR ''*''" "c \<noteq> CHR ''.''" by blast
  then show ?case
  proof cases
    case 1
    have "match_here (AnyStar # map atom_of p) s \<longleftrightarrow>
        (\<exists>a b. s = a @ b \<and> (\<forall>x\<in>set a. \<not> isLineTerminator x) \<and> match_here (map atom_of p) b)"
    proof (induction s)
      case Nil
      show ?case by simp
    next
      case (Cons x xs)
      show ?case
      proof
        assume "match_here (AnyStar # map atom_of p) (x # xs)"
        then consider "match_here (map atom_of p) (x # xs)"
          | "\<not> isLineTerminator x" "match_here (AnyStar # map atom_of p) xs" by auto
        then show "\<exists>a b. x # xs = a @ b \<and> (\<forall>x\<in>set a. \<not> isLineTerminator x) \<and> match_here (map atom_of p) b"
        proof cases
          case 1
          then show ?thesis by (intro exI[of _ "[]"] exI[of _ "x # xs"]) simp
        next
          case 2
          with Cons obtain a b where "xs = a @ b" "\<forall>x\<in>set a. \<not> isLineTerminator x" "match_here (map atom_of p) b"
            by blast
          with 2 show ?thesis by (intro exI[of _ "x # a"] exI[of _ b]) simp
        qed
      next
        assume "\<exists>a b. x # xs = a @ b \<and> (\<forall>x\<in>set a. \<not> isLineTerminator x) \<and> match_here (map atom_of p) b"
        then obtain a b where ab: "x # xs = a @ b" "\<forall>x\<in>set a. \<not> isLineTerminator x" "match_here (map atom_of p) b"
          by blast
        show "match_here (AnyStar # map atom_of p) (x # xs)"
        proof (cases a)
          case Nil
          with ab have "match_here (map atom_of p) (x # xs)" by simp
          then show ?thesis by simp
        next
          case (Cons y ys)
          with ab have "xs = ys @ b" "\<not> isLineTerminator x" "\<forall>x\<in>set ys. \<not> isLineTerminator x" by auto
          with ab Cons.IH show ?thesis by auto
        qed
      qed
    qed
    also have "\<dots> \<longleftrightarrow> (\<exists>a b. s = a @ b \<and> (\<forall>x\<in>set a. \<not> isLineTerminator x) \<and> (\<exists>w post. b = w @ post \<and> wildcard_match p w))"
      using Cons.IH by simp
    also have "\<dots> \<longleftrightarrow> (\<exists>w post. s = w @ post \<and> wildcard_match (CHR ''*'' # p) w)"
      unfolding wildcard_match_star
      apply (rule iffI)
       apply (elim exE conjE)
      subgoal for a b w post by (intro exI[of _ "a @ w"] exI[of _ post]) auto
      apply (elim exE conjE)
      subgoal for w post a b by (intro exI[of _ a] exI[of _ "b @ post"]) auto
      done
    finally show ?thesis using 1 by (simp add: atom_of_simps)
  next
    case 2
    show ?thesis
    proof (cases s)
      case Nil
      then show ?thesis using 2 by (simp add: atom_of_simps wildcard_match_dot)
    next
      case (Cons x xs)
      have "match_here (map atom_of (c # p)) s \<longleftrightarrow>
          \<not> isLineTerminator x \<and> (\<exists>w post. xs = w @ post \<and> wildcard_match p w)"
        using 2 Cons Cons.IH by (simp add: atom_of_simps)
      also have "\<dots> \<longleftrightarrow> (\<exists>w post. s = w @ post \<and> wildcard_match (c # p) w)"
        unfolding 2 wildcard_match_dot Cons
        apply (rule iffI)
         apply (elim exE conjE)
        subgoal for w post by (intro exI[of _ "x # w"] exI[of _ post]) simp
        apply (elim exE conjE)
        subgoal for w post y ys by (intro conjI exI[of _ ys] exI[of _ post]) auto
        done
      finally show ?thesis .
    qed
  next
    case 3
    show ?thesis
    proof (cases s)
      case Nil
      then show ?thesis using 3 by (simp add: atom_of_simps wildcard_match_lit)
    next
      case (Cons x xs)
      have "match_here (map atom_of (c # p)) s \<longleftrightarrow>
          x = c \<and> (\<exists>w post. xs = w @ post \<and> wildcard_match p w)"
        using 3 Cons Cons.IH by (simp add: atom_of_simps)
      also have "\<dots> \<longleftrightarrow> (\<exists>w post. s = w @ post \<and> wildcard_match (c # p) w)"
        unfolding wildcard_match_lit [OF 3] Cons
        apply (rule iffI)
         apply (elim exE conjE)
        subgoal for w post by (intro exI[of _ "x # w"] exI[of _ post]) simp
        apply (elim exE conjE)
        subgoal for w post ys by (intro conjI exI[of _ ys] exI[of _ post]) auto
        done
      finally show ?thesis .
    qed
  qed
qed


lemma regex_test_wildcard:
  "regex_test (map atom_of p) h \<longleftrightarrow> (\<exists>pre w post. h = pre @ w @ post \<and> wildcard_match p w)"
proof (induction h)
  case Nil
  show ?case by (simp add: match_here_wildcard)
next
  case (Cons x xs)
  show ?case
  proof
    assume "regex_test (map atom_of p) (x # xs)"
    then consider "match_here (map atom_of p) (x # xs)" | "regex_test (map atom_of p) xs" by auto
    then show "\<exists>pre w post. x # xs = pre @ w @ post \<and> wildcard_match p w"
    proof cases
      case 1
      then obtain w post where "x # xs = w @ post" "wildcard_match p w"
        using match_here_wildcard by blast
      then show ?thesis by (intro exI[of _ "[]"] exI[of _ w] exI[of _ post]) simp
    next
      case 2
      with Cons obtain pre w post where "xs = pre @ w @ post" "wildcard_match p w" by blast
      then show ?thesis by (intro exI[of _ "x # pre"] exI[of _ w] exI[of _ post]) simp
    qed
  next
    assume "\<exists>pre w post. x # xs = pre @ w @ post \<and> wildcard_match p w"
    then obtain pre w post where pw: "x # xs = pre @ w @ post" "wildcard_match p w" by blast
    show "regex_test (map atom_of p) (x # xs)"
    proof (cases pre)
      case Nil
      with pw have "match_here (map atom_of p) (x # xs)"
        using match_here_wildcard [of p "x # xs"] by auto
      then show ?thesis by simp
    next
      case (Cons y ys)
      with pw have "xs = ys @ w @ post" by simp
      with pw Cons.IH have "regex_test (map atom_of p) xs" by blast
      then show ?thesis by simp
    qed
  qed
qed

lemma wildcard_excludes_iff:
  "wildcard_excludes p h \<longleftrightarrow> (\<exists>pre w post. h = pre @ w @ post \<and> wildcard_match p w)"
proof
  assume "wildcard_excludes p h"
  then have "\<exists>i\<in>set [0..<Suc (length h)]. \<exists>n\<in>set [0..<Suc (length h - i)].
      wildcard_match p (take n (drop i h))"
    by (simp only: wildcard_excludes_def list_ex_iff)
  then obtain i n where "wildcard_match p (take n (drop i h))"
    by blast
  moreover have "h = take i h @ take n (drop i h) @ drop n (drop i h)"
    by (simp only: append_take_drop_id)
  ultimately show "\<exists>pre w post. h = pre @ w @ post \<and> wildcard_match p w" by blast
next
  assume "\<exists>pre w post. h = pre @ w @ post \<and> wildcard_match p w"
  then obtain pre w post where h: "h = pre @ w @ post" and w: "wildcard_match p w" by blast
  have "length pre \<in> set [0..<Suc (length h)]" using h by simp
  moreover have "length w \<in> set [0..<Suc (length h - length pre)]" using h by simp
  moreover have "wildcard_match p (take (length w) (drop (length pre) h))" using h w by simp
  ultimately show "wildcard_excludes p h"
    unfolding wildcard_excludes_def list_ex_iff by blast
qed

lemma excluded_loop_plain:
  assumes "list_all plain_pattern ds" "url_hostname rt u = Some h" "h \<noteq> []"
  shows "excluded_loop rt ds u = Some (\<not> list_ex (\<lambda>d. wildcard_excludes d h) ds)"
  using assms
proof (induction ds)
  case Nil
  show ?case by simp
next
  case (Cons d ds)
  then have "RegExp (replace_stars (replace_dots d)) = Some (map atom_of d)"
    by (simp add: replace_dots_id RegExp_plain)
  moreover have "regex_test (map atom_of d) h = wildcard_excludes d h"
    by (simp add: regex_test_wildcard wildcard_excludes_iff)
  ultimately show ?case using Cons by (simp add: Let_def)
qed

lemma exclusion_pattern_compiled:
  "RegExp (replace_stars (replace_dots ''*.excluded.com'')) =
     Some [AnyStar, AnyChar, Lit CHR ''e'', Lit CHR ''x'', Lit CHR ''c'', Lit CHR ''l'',
       Lit CHR ''u'', Lit CHR ''d'', Lit CHR ''e'', Lit CHR ''d'', AnyChar, Lit CHR ''c'',
       Lit CHR ''o'', Lit CHR ''m'']"
  by (simp add: replace_dots_def replace_stars_def isSyntaxCharacter_def)

lemma exclusion_pattern_api:
  "regex_test [AnyStar, AnyChar, Lit CHR ''e'', Lit CHR ''x'', Lit CHR ''c'', Lit CHR ''l'',
     Lit CHR ''u'', Lit CHR ''d'', Lit CHR ''e'', Lit CHR ''d'', AnyChar, Lit CHR ''c'',
     Lit CHR ''o'', Lit CHR ''m''] ''api.excluded.com''"
  by (simp add: isLineTerminator_def)

lemma exclusion_pattern_evil:
  "\<not> regex_test [AnyStar, AnyChar, Lit CHR ''e'', Lit CHR ''x'', Lit CHR ''c'', Lit CHR ''l'',
     Lit CHR ''u'', Lit CHR ''d'', Lit CHR ''e'', Lit CHR ''d'', AnyChar, Lit CHR ''c'',
     Lit CHR ''o'', Lit CHR ''m''] ''excluded.com.evil.org''"
  by (simp add: isLineTerminator_def)

text \<open>
  C3. For a client whose configuration lists the one pattern \<open>*.excluded.com\<close> and a
  request URL that is not empty, the check returns false for the hostname
  \<open>api.excluded.com\<close> and true for the hostname \<open>excluded.com.evil.org\<close>. In general,
  for patterns without other syntax characters and a hostname that is not empty, the
  check returns false exactly when some pattern of the list excludes the hostname,
  where a pattern excludes a hostname when it matches some part of it, with \<open>*\<close> for
  any substring, the dot for any one character and every other character for
  itself; and without a hostname the check returns false.
\<close>

theorem canIncludeCorrelationHeader_patterns:
  assumes c: "config c = Some cfg" and u: "requestUrl \<noteq> []"
  shows
    "(correlationHeaderExcludedDomains cfg = Some [''*.excluded.com''] \<longrightarrow>
        (url_hostname rt requestUrl = Some ''api.excluded.com'' \<longrightarrow>
           canIncludeCorrelationHeader rt (Some c) requestUrl = Some False) \<and>
        (url_hostname rt requestUrl = Some ''excluded.com.evil.org'' \<longrightarrow>
           canIncludeCorrelationHeader rt (Some c) requestUrl = Some True)) \<and>
     (correlationHeaderExcludedDomains cfg = Some ds \<and> list_all plain_pattern ds \<and>
      url_hostname rt requestUrl = Some h \<and> h \<noteq> [] \<longrightarrow>
        canIncludeCorrelationHeader rt (Some c) requestUrl =
          Some (\<not> list_ex (\<lambda>d. wildcard_excludes d h) ds)) \<and>
     (correlationHeaderExcludedDomains cfg = Some (d # ds) \<and> plain_pattern d \<and>
      (url_hostname rt requestUrl = None \<or> url_hostname rt requestUrl = Some []) \<longrightarrow>
        canIncludeCorrelationHeader rt (Some c) requestUrl = Some False) \<and>
     (wildcard_excludes p h \<longleftrightarrow> (\<exists>pre w post. h = pre @ w @ post \<and> wildcard_match p w))"
proof (intro conjI impI)
  assume "correlationHeaderExcludedDomains cfg = Some [''*.excluded.com'']"
    and "url_hostname rt requestUrl = Some ''api.excluded.com''"
  then show "canIncludeCorrelationHeader rt (Some c) requestUrl = Some False"
    using c u exclusion_pattern_api
    by (simp add: canIncludeCorrelationHeader_def exclusion_pattern_compiled)
next
  assume "correlationHeaderExcludedDomains cfg = Some [''*.excluded.com'']"
    and "url_hostname rt requestUrl = Some ''excluded.com.evil.org''"
  then show "canIncludeCorrelationHeader rt (Some c) requestUrl = Some True"
    using c u exclusion_pattern_evil
    by (simp add: canIncludeCorrelationHeader_def exclusion_pattern_compiled)
next
  assume a: "correlationHeaderExcludedDomains cfg = Some ds \<and> list_all plain_pattern ds \<and>
      url_hostname rt requestUrl = Some h \<and> h \<noteq> []"
  then have "excluded_loop rt ds requestUrl = Some (\<not> list_ex (\<lambda>d. wildcard_excludes d h) ds)"
    by (intro excluded_loop_plain) simp_all
  then show "canIncludeCorrelationHeader rt (Some c) requestUrl =
      Some (\<not> list_ex (\<lambda>d. wildcard_excludes d h) ds)"
    using a c u by (cases ds) (simp_all add: canIncludeCorrelationHeader_def)
next
  assume a: "correlationHeaderExcludedDomains cfg = Some (d # ds) \<and> plain_pattern d \<and>
      (url_hostname rt requestUrl = None \<or> url_hostname rt requestUrl = Some [])"
  then have "RegExp (replace_stars (replace_dots d)) = Some (map atom_of d)"
    by (simp add: replace_dots_id RegExp_plain)
  then show "canIncludeCorrelationHeader rt (Some c) requestUrl = Some False"
    using a c u by (auto simp: canIncludeCorrelationHeader_def)
next
  show "wildcard_excludes p h \<longleftrightarrow> (\<exists>pre w post. h = pre @ w @ post \<and> wildcard_match p w)"
    by (rule wildcard_excludes_iff)
qed

theorem canIncludeCorrelationHeader_patterns_witness:
  "canIncludeCorrelationHeader
     \<lparr>Number_toString = (\<lambda>n. []), Global_parseInt = (\<lambda>s. NaN),
       JSON_stringify = (\<lambda>v. Inr None),
       url_hostname = (\<lambda>u. Some ''api.excluded.com'')\<rparr>
     (Some \<lparr>config = Some \<lparr>instrumentationKey = None, samplingPercentage = Finite 100,
        correlationId = ''cid-v1:1'',
        correlationHeaderExcludedDomains = Some [''*.excluded.com'']\<rparr>\<rparr>)
     ''https://api.excluded.com/v1'' = Some False \<and>
   canIncludeCorrelationHeader
     \<lparr>Number_toString = (\<lambda>n. []), Global_parseInt = (\<lambda>s. NaN),
       JSON_stringify = (\<lambda>v. Inr None),
       url_hostname = (\<lambda>u. Some ''excluded.com.evil.org'')\<rparr>
     (Some \<lparr>config = Some \<lparr>instrumentationKey = None, samplingPercentage = Finite 100,
        correlationId = ''cid-v1:1'',
        correlationHeaderExcludedDomains = Some [''*.excluded.com'']\<rparr>\<rparr>)
     ''https://excluded.com.evil.org/v1'' = Some True"
  using
    canIncludeCorrelationHeader_patterns [of
      "\<lparr>config = Some \<lparr>instrumentationKey = None, samplingPercentage = Finite 100,
         correlationId = ''cid-v1:1'',
         correlationHeaderExcludedDomains = Some [''*.excluded.com'']\<rparr>\<rparr>"
      "\<lparr>instrumentationKey = None, samplingPercentage = Finite 100,
         correlationId = ''cid-v1:1'',
         correlationHeaderExcludedDomains = Some [''*.excluded.com'']\<rparr>"
      "''https://api.excluded.com/v1''"
      "\<lparr>Number_toString = (\<lambda>n. []), Global_parseInt = (\<lambda>s. NaN),
       JSON_stringify = (\<lambda>v. Inr None),
        url_hostname = (\<lambda>u. Some ''api.excluded.com'')\<rparr>"]
    canIncludeCorrelationHeader_patterns [of
      "\<lparr>config = Some \<lparr>instrumentationKey = None, samplingPercentage = Finite 100,
         correlationId = ''cid-v1:1'',
         correlationHeaderExcludedDomains = Some [''*.excluded.com'']\<rparr>\<rparr>"
      "\<lparr>instrumentationKey = None, samplingPercentage = Finite 100,
         correlationId = ''cid-v1:1'',
         correlationHeaderExcludedDomains = Some [''*.excluded.com'']\<rparr>"
      "''https://excluded.com.evil.org/v1''"
      "\<lparr>Number_toString = (\<lambda>n. []), Global_parseInt = (\<lambda>s. NaN),
       JSON_stringify = (\<lambda>v. Inr None),
        url_hostname = (\<lambda>u. Some ''excluded.com.evil.org'')\<rparr>"]
  by simp


section \<open>Properties of Util.validateStringMap\<close>

lemma in_set_update:
  "(a, b) \<in> set (AList.update k v al) \<Longrightarrow> (a, b) = (k, v) \<or> (a, b) \<in> set al"
  by (induction al) (auto split: if_splits)

lemma in_set_set_prop:
  "(a, b) \<in> set (set_prop al k v) \<Longrightarrow> (a, b) = (k, v) \<or> (a, b) \<in> set al"
  by (auto simp: set_prop_def dest: in_set_update split: if_splits)

lemma map_of_set_prop:
  "map_of (set_prop al k v) =
     (if k = ''__proto__'' \<and> map_of al k = None then map_of al else (map_of al)(k \<mapsto> v))"
  by (auto simp: set_prop_def update_conv')

lemma map_of_set_prop_other: "k' \<noteq> k \<Longrightarrow> map_of (set_prop al k v) k' = map_of al k'"
  by (simp add: map_of_set_prop)

lemma map_of_set_prop_same:
  "k \<noteq> ''__proto__'' \<Longrightarrow> map_of (set_prop al k v) k = Some v"
  by (simp add: map_of_set_prop)

lemma map_of_set_prop_proto:
  "map_of al ''__proto__'' = None \<Longrightarrow> map_of (set_prop al k v) ''__proto__'' = None"
  by (simp add: map_of_set_prop)

lemma validate_fields_entries:
  "validate_fields rt fs m0 = Inr m \<Longrightarrow> (k, v) \<in> set m \<Longrightarrow>
   (k, v) \<in> set m0 \<or>
   (\<exists>orig s. (k, orig) \<in> set fs \<and> property_of rt orig = Inr (Some s) \<and>
      v = take MAX_PROPERTY_LENGTH s)"
proof (induction fs arbitrary: m0)
  case Nil
  then show ?case by simp
next
  case (Cons f fs)
  obtain field orig where f: "f = (field, orig)" by (cases f)
  show ?case
  proof (cases "property_of rt orig")
    case (Inl e)
    with Cons.prems f show ?thesis by simp
  next
    case (Inr r)
    show ?thesis
    proof (cases r)
      case None
      with Inr Cons.prems f have "validate_fields rt fs m0 = Inr m" by simp
      from Cons.IH [OF this Cons.prems(2)] show ?thesis by auto
    next
      case (Some s)
      with Inr Cons.prems f have
        "validate_fields rt fs (set_prop m0 field (take MAX_PROPERTY_LENGTH s)) = Inr m"
        by simp
      from Cons.IH [OF this Cons.prems(2)] show ?thesis
        using Inr Some f by (auto dest: in_set_set_prop)
    qed
  qed
qed

lemma validate_fields_other_keys:
  "validate_fields rt fs m0 = Inr m \<Longrightarrow> k \<notin> fst ` set fs \<Longrightarrow> map_of m k = map_of m0 k"
proof (induction fs arbitrary: m0)
  case Nil
  then show ?case by simp
next
  case (Cons f fs)
  obtain field orig where f: "f = (field, orig)" by (cases f)
  with Cons.prems have k: "k \<noteq> field" "k \<notin> fst ` set fs" by auto
  show ?case
  proof (cases "property_of rt orig")
    case (Inl e)
    with Cons.prems f show ?thesis by simp
  next
    case (Inr r)
    show ?thesis
    proof (cases r)
      case None
      with Inr Cons.prems f have "validate_fields rt fs m0 = Inr m" by simp
      from Cons.IH [OF this k(2)] show ?thesis .
    next
      case (Some s)
      with Inr Cons.prems f have
        "validate_fields rt fs (set_prop m0 field (take MAX_PROPERTY_LENGTH s)) = Inr m"
        by simp
      from Cons.IH [OF this k(2)] show ?thesis using k by (simp add: map_of_set_prop_other)
    qed
  qed
qed

lemma validate_fields_proto:
  "validate_fields rt fs m0 = Inr m \<Longrightarrow> map_of m0 ''__proto__'' = None \<Longrightarrow>
   map_of m ''__proto__'' = None"
proof (induction fs arbitrary: m0)
  case Nil
  then show ?case by simp
next
  case (Cons f fs)
  obtain field orig where f: "f = (field, orig)" by (cases f)
  show ?case
  proof (cases "property_of rt orig")
    case (Inl e)
    with Cons.prems f show ?thesis by simp
  next
    case (Inr r)
    show ?thesis
    proof (cases r)
      case None
      with Inr Cons.prems f have "validate_fields rt fs m0 = Inr m" by simp
      from Cons.IH [OF this Cons.prems(2)] show ?thesis .
    next
      case (Some s)
      with Inr Cons.prems f have
        "validate_fields rt fs (set_prop m0 field (take MAX_PROPERTY_LENGTH s)) = Inr m"
        by simp
      from Cons.IH [OF this map_of_set_prop_proto [OF Cons.prems(2)]] show ?thesis .
    qed
  qed
qed

lemma validate_fields_map_of:
  "validate_fields rt fs m0 = Inr m \<Longrightarrow> distinct (map fst fs) \<Longrightarrow> (k, orig) \<in> set fs \<Longrightarrow>
   property_of rt orig = Inr (Some s) \<Longrightarrow> k \<noteq> ''__proto__'' \<Longrightarrow>
   map_of m k = Some (take MAX_PROPERTY_LENGTH s)"
proof (induction fs arbitrary: m0)
  case Nil
  then show ?case by simp
next
  case (Cons f fs)
  obtain field orig' where f: "f = (field, orig')" by (cases f)
  from Cons.prems f have d: "field \<notin> fst ` set fs" "distinct (map fst fs)" by auto
  show ?case
  proof (cases "(k, orig) = f")
    case True
    with f have eq: "field = k" "orig' = orig" by auto
    with Cons.prems f have
      v: "validate_fields rt fs (set_prop m0 k (take MAX_PROPERTY_LENGTH s)) = Inr m"
      by simp
    from validate_fields_other_keys [OF v] d eq Cons.prems(5) show ?thesis
      by (simp add: map_of_set_prop_same)
  next
    case False
    with Cons.prems have mem: "(k, orig) \<in> set fs" by auto
    show ?thesis
    proof (cases "property_of rt orig'")
      case (Inl e)
      with Cons.prems f show ?thesis by simp
    next
      case (Inr r)
      show ?thesis
      proof (cases r)
        case None
        with Inr Cons.prems f have "validate_fields rt fs m0 = Inr m" by simp
        from Cons.IH [OF this d(2) mem Cons.prems(4) Cons.prems(5)] show ?thesis .
      next
        case (Some s')
        with Inr Cons.prems f have
          "validate_fields rt fs (set_prop m0 field (take MAX_PROPERTY_LENGTH s')) = Inr m"
          by simp
        from Cons.IH [OF this d(2) mem Cons.prems(4) Cons.prems(5)] show ?thesis .
      qed
    qed
  qed
qed

lemma validate_fields_total:
  "\<forall>(k, orig)\<in>set fs. \<exists>r. property_of rt orig = Inr r \<Longrightarrow> \<exists>m. validate_fields rt fs m0 = Inr m"
proof (induction fs arbitrary: m0)
  case Nil
  show ?case by simp
next
  case (Cons f fs)
  obtain field orig where f: "f = (field, orig)" by (cases f)
  with Cons.prems obtain r where r: "property_of rt orig = Inr r" by auto
  from Cons.prems have rest: "\<forall>(k, orig)\<in>set fs. \<exists>r. property_of rt orig = Inr r" by simp
  show ?case using Cons.IH [OF rest] f r by (cases r) simp_all
qed

lemma property_of_simple:
  "isPrimitive orig \<or> orig = JSNull \<or> orig = JSUndefined \<or> orig = JSFunction \<Longrightarrow>
   \<exists>r. property_of rt orig = Inr r"
  by (auto simp: property_of_def Let_def isPrimitive_def)

text \<open>
  C8. When \<open>validateStringMap\<close> returns a map, every value in it has at most 8192
  characters and is the first 8192 characters of the string computed for a field
  with its key, and no key of the map is \<open>__proto__\<close> (an assignment to that key
  stores nothing). When the fields have different keys, as those of an object do,
  every field other than \<open>__proto__\<close> for which a string is computed is in the map
  with the first 8192 characters of that string, which are exactly 8192 characters
  when the string is longer. On an object whose fields are primitive values, \<open>null\<close>,
  \<open>undefined\<close> or functions the call returns a map.
\<close>

theorem validateStringMap_truncates:
  "MAX_PROPERTY_LENGTH = 8192 \<and>
   (validateStringMap rt obj = Inr (Some m) \<longrightarrow>
      (\<forall>(k, v)\<in>set m. k \<noteq> ''__proto__'' \<and> length v \<le> MAX_PROPERTY_LENGTH \<and>
         (\<exists>orig s. (k, orig) \<in> set (for_in obj) \<and> property_of rt orig = Inr (Some s) \<and>
            v = take MAX_PROPERTY_LENGTH s)) \<and>
      (distinct (map fst (for_in obj)) \<longrightarrow>
         (\<forall>(k, orig)\<in>set (for_in obj). \<forall>s.
            property_of rt orig = Inr (Some s) \<and> k \<noteq> ''__proto__'' \<longrightarrow>
            map_of m k = Some (take MAX_PROPERTY_LENGTH s) \<and>
            (MAX_PROPERTY_LENGTH < length s \<longrightarrow>
               length (take MAX_PROPERTY_LENGTH s) = MAX_PROPERTY_LENGTH)))) \<and>
   (typeof obj = ''object'' \<and>
    (\<forall>(k, orig)\<in>set (for_in obj).
       isPrimitive orig \<or> orig = JSNull \<or> orig = JSUndefined \<or> orig = JSFunction) \<longrightarrow>
      (\<exists>m'. validateStringMap rt obj = Inr (Some m')))"
proof (intro conjI impI)
  show "MAX_PROPERTY_LENGTH = 8192" by (simp add: MAX_PROPERTY_LENGTH_def)
next
  assume "validateStringMap rt obj = Inr (Some m)"
  then have v: "validate_fields rt (for_in obj) [] = Inr m"
    by (auto simp: validateStringMap_def split: if_splits sum.splits)
  have p: "map_of m ''__proto__'' = None"
    using v by (rule validate_fields_proto) simp
  show "\<forall>(k, v)\<in>set m. k \<noteq> ''__proto__'' \<and> length v \<le> MAX_PROPERTY_LENGTH \<and>
      (\<exists>orig s. (k, orig) \<in> set (for_in obj) \<and> property_of rt orig = Inr (Some s) \<and>
         v = take MAX_PROPERTY_LENGTH s)"
  proof (clarify, intro conjI)
    fix k w
    assume m: "(k, w) \<in> set m"
    then have "k \<in> fst ` set m" by (rule image_eqI [rotated]) simp
    then have "map_of m k \<noteq> None" by (simp add: map_of_eq_None_iff)
    with p show "k \<noteq> ''__proto__''" by auto
    from validate_fields_entries [OF v m]
    show e: "\<exists>orig s. (k, orig) \<in> set (for_in obj) \<and> property_of rt orig = Inr (Some s) \<and>
        w = take MAX_PROPERTY_LENGTH s"
      by simp
    then show "length w \<le> MAX_PROPERTY_LENGTH" by auto
  qed
next
  assume "validateStringMap rt obj = Inr (Some m)" and d: "distinct (map fst (for_in obj))"
  then have v: "validate_fields rt (for_in obj) [] = Inr m"
    by (auto simp: validateStringMap_def split: if_splits sum.splits)
  show "\<forall>(k, orig)\<in>set (for_in obj). \<forall>s.
      property_of rt orig = Inr (Some s) \<and> k \<noteq> ''__proto__'' \<longrightarrow>
      map_of m k = Some (take MAX_PROPERTY_LENGTH s) \<and>
      (MAX_PROPERTY_LENGTH < length s \<longrightarrow>
         length (take MAX_PROPERTY_LENGTH s) = MAX_PROPERTY_LENGTH)"
    using validate_fields_map_of [OF v d] by auto
next
  assume a: "typeof obj = ''object'' \<and>
    (\<forall>(k, orig)\<in>set (for_in obj).
       isPrimitive orig \<or> orig = JSNull \<or> orig = JSUndefined \<or> orig = JSFunction)"
  then have "\<forall>(k, orig)\<in>set (for_in obj). \<exists>r. property_of rt orig = Inr r"
    using property_of_simple [of _ rt] by blast
  then obtain m' where "validate_fields rt (for_in obj) [] = Inr m'"
    using validate_fields_total by blast
  with a show "\<exists>m'. validateStringMap rt obj = Inr (Some m')"
    by (simp add: validateStringMap_def)
qed

theorem validateStringMap_truncates_witness:
  "validateStringMap sample_runtime
     (JSObject None None ''Object''
        [(''a'', JSString (replicate 9000 (CHR ''x''))), (''__proto__'', JSString ''p''),
         (''f'', JSFunction)]) =
     Inr (Some [(''a'', replicate 8192 (CHR ''x''))]) \<and>
   length (replicate 8192 (CHR ''x'')) \<le> MAX_PROPERTY_LENGTH"
  using validateStringMap_truncates [of sample_runtime
      "JSObject None None ''Object''
        [(''a'', JSString (replicate 9000 (CHR ''x''))), (''__proto__'', JSString ''p''),
         (''f'', JSFunction)]"
      "[(''a'', replicate 8192 (CHR ''x''))]"]
  by (simp add: validateStringMap_def property_of_def isPrimitive_def MAX_PROPERTY_LENGTH_def
        set_prop_def)

section \<open>Properties of EnvelopeFactory.getTags\<close>

lemma map_of_as_values: "map_of (as_values ts) k = map_option JSString (map_of ts k)"
  by (induction ts) (auto simp: as_values_def)

lemma map_fst_as_values: "map fst (as_values ts) = map fst ts"
  by (induction ts) (auto simp: as_values_def)

lemma copy_tags_Nil: "copy_tags [] m = m"
  by (simp add: copy_tags_def)

lemma copy_tags_Cons: "copy_tags ((k, v) # xs) m = copy_tags xs (set_prop m k v)"
  by (simp add: copy_tags_def)

text \<open>
  A copy adds every key of the source but \<open>__proto__\<close>, which the new object never
  gets.
\<close>

lemma map_of_copy_tags:
  "distinct (map fst xs) \<Longrightarrow> map_of m ''__proto__'' = None \<Longrightarrow>
   map_of (copy_tags xs m) k =
     (if k = ''__proto__'' then None else (map_of m ++ map_of xs) k)"
proof (induction xs arbitrary: m)
  case Nil
  then show ?case by (simp add: copy_tags_Nil)
next
  case (Cons x xs)
  obtain k' v where x: "x = (k', v)" by (cases x)
  with Cons.prems have k': "map_of xs k' = None" and d: "distinct (map fst xs)"
    by (auto simp: map_of_eq_None_iff)
  have p: "map_of (set_prop m k' v) ''__proto__'' = None"
    using Cons.prems(2) by (rule map_of_set_prop_proto)
  have "map_of (copy_tags (x # xs) m) k = map_of (copy_tags xs (set_prop m k' v)) k"
    unfolding x by (simp only: copy_tags_Cons)
  also have "\<dots> = (if k = ''__proto__'' then None else (map_of (set_prop m k' v) ++ map_of xs) k)"
    using d p by (rule Cons.IH)
  also have "\<dots> = (if k = ''__proto__'' then None else (map_of m ++ map_of (x # xs)) k)"
    using k' x Cons.prems(2)
    by (auto simp: map_of_set_prop map_add_def split: option.splits)
  finally show ?case .
qed

lemma map_of_copy_tags_proto:
  "map_of m ''__proto__'' = None \<Longrightarrow> map_of (copy_tags xs m) ''__proto__'' = None"
proof (induction xs arbitrary: m)
  case Nil
  then show ?case by (simp add: copy_tags_Nil)
next
  case (Cons x xs)
  obtain k' v where x: "x = (k', v)" by (cases x)
  show ?case
    unfolding x copy_tags_Cons using Cons.prems by (intro Cons.IH map_of_set_prop_proto)
qed

text \<open>The tags after the two copies: those of the context, overlaid with the overrides.\<close>

lemma map_of_copied:
  assumes "distinct (map fst ts)" "distinct (map fst ov)"
  shows "map_of (copy_tags (as_values ov) (copy_tags (as_values ts) [])) k =
     (if k = ''__proto__'' then None else map_option JSString ((map_of ts ++ map_of ov) k))"
proof -
  have p: "map_of (copy_tags (as_values ts) []) ''__proto__'' = None"
    by (rule map_of_copy_tags_proto) simp
  have 1: "map_of (copy_tags (as_values ts) []) k' =
      (if k' = ''__proto__'' then None else map_option JSString (map_of ts k'))" for k'
    using assms(1) by (simp add: map_of_copy_tags map_fst_as_values map_of_as_values)
  have "map_of (copy_tags (as_values ov) (copy_tags (as_values ts) [])) k =
      (if k = ''__proto__'' then None
       else (map_of (copy_tags (as_values ts) []) ++ map_of (as_values ov)) k)"
    using assms(2) p by (intro map_of_copy_tags) (simp_all add: map_fst_as_values)
  then show ?thesis
    by (auto simp: 1 map_add_def map_of_as_values split: option.splits)
qed

text \<open>
  \<open>newTags[key] = newTags[key] || x\<close> for a key that \<open>Object.prototype\<close> does not have,
  on tags that are strings.
\<close>

lemma map_of_fill:
  assumes "key \<notin> fst ` set Object_prototype"
    and "map_of newTags key = map_option JSString t"
  shows "map_of (set_prop newTags key (tag_or newTags key x)) =
     (map_of newTags)(key \<mapsto>
        JSString (case t of None \<Rightarrow> x | Some v \<Rightarrow> if v \<noteq> [] then v else x))"
proof -
  have i: "map_of Object_prototype key = None"
    using assms(1) by (simp add: map_of_eq_None_iff)
  have k: "key \<noteq> ''__proto__''"
    using assms(1) by (auto simp: Object_prototype_def)
  have "tag_or newTags key x =
      JSString (case t of None \<Rightarrow> x | Some v \<Rightarrow> if v \<noteq> [] then v else x)"
    using assms(2) i by (cases t) (simp_all add: tag_or_def get_prop_def js_or_def)
  then show ?thesis using k by (simp add: map_of_set_prop)
qed

lemma fold_store_write:
  "fold (\<lambda>(key, v) s'. store_write s' (length s0) key v) xs (s0 @ [obj]) =
   s0 @ [fold (\<lambda>(key, v) m. set_prop m key v) xs obj]"
proof (induction xs arbitrary: obj)
  case Nil
  show ?case by simp
next
  case (Cons x xs)
  obtain k v where x: "x = (k, v)" by (cases x)
  show ?case using Cons.IH [of "set_prop obj k v"] x by (simp add: store_write_def)
qed

lemma store_copy_append:
  "src < length s0 \<Longrightarrow>
   store_copy src (length s0) (s0 @ [obj]) = s0 @ [copy_tags (s0 ! src) obj]"
  by (simp add: store_copy_def copy_tags_def fold_store_write nth_append)

lemma store_fill_append:
  "store_fill (length s0) key x (s0 @ [obj]) = s0 @ [set_prop obj key (tag_or obj key x)]"
  by (simp add: store_fill_def store_write_def)

lemma getTags_store_refines:
  assumes "\<forall>a. ta = Some a \<longrightarrow> a < length s" "\<forall>a. oa = Some a \<longrightarrow> a < length s"
    and "map_option ((!) s) ta = map_option as_values ts"
    and "map_option ((!) s) oa = map_option as_values ov"
  shows "getTags_store s cc (Some (ta, K)) oa =
     (case getTags cc (Some \<lparr>context_tags = ts, context_keys = K\<rparr>) ov of
        Inl e \<Rightarrow> Inl e
      | Inr newTags \<Rightarrow> Inr (s @ [newTags], length s))"
  using assms
  by (cases ta; cases oa; cases cc; cases ts; cases ov)
     (simp_all add: getTags_store_def getTags_def Let_def store_copy_append store_fill_append)

lemma getTags_no_correlation:
  assumes "distinct (map fst (case context_tags c of None \<Rightarrow> [] | Some ts \<Rightarrow> ts))"
    and "distinct (map fst (case tagOverrides of None \<Rightarrow> [] | Some ov \<Rightarrow> ov))"
  shows "\<exists>newTags. getTags None (Some c) tagOverrides = Inr newTags \<and>
     (\<forall>k. map_of newTags k =
        (if k = ''__proto__'' then None
         else map_option JSString
                ((map_of (case context_tags c of None \<Rightarrow> [] | Some ts \<Rightarrow> ts) ++
                  map_of (case tagOverrides of None \<Rightarrow> [] | Some ov \<Rightarrow> ov)) k)))"
proof -
  define ts where "ts = (case context_tags c of None \<Rightarrow> [] | Some ts \<Rightarrow> ts)"
  define ov where "ov = (case tagOverrides of None \<Rightarrow> [] | Some ov \<Rightarrow> ov)"
  have "getTags None (Some c) tagOverrides =
      Inr (copy_tags (as_values ov) (copy_tags (as_values ts) []))"
    by (cases "context_tags c"; cases tagOverrides)
       (simp_all add: getTags_def Let_def ts_def ov_def as_values_def copy_tags_Nil)
  then show ?thesis
    using map_of_copied [of ts ov] assms unfolding ts_def [symmetric] ov_def [symmetric]
    by simp
qed

lemma getTags_correlation:
  assumes "distinct (map fst (case context_tags c of None \<Rightarrow> [] | Some ts \<Rightarrow> ts))"
    and "distinct (map fst (case tagOverrides of None \<Rightarrow> [] | Some ov \<Rightarrow> ov))"
    and "distinct [operationId (context_keys c), operationName (context_keys c),
           operationParentId (context_keys c)]"
    and "\<forall>key\<in>set [operationId (context_keys c), operationName (context_keys c),
           operationParentId (context_keys c)]. key \<notin> fst ` set Object_prototype"
  shows "\<exists>newTags. getTags (Some cc) (Some c) tagOverrides = Inr newTags \<and>
     (\<forall>k. map_of newTags k =
        (let merged = map_of (case context_tags c of None \<Rightarrow> [] | Some ts \<Rightarrow> ts) ++
                      map_of (case tagOverrides of None \<Rightarrow> [] | Some ov \<Rightarrow> ov);
             filled = (\<lambda>x. case merged k of None \<Rightarrow> x | Some v \<Rightarrow> if v \<noteq> [] then v else x)
         in if k = operationId (context_keys c)
            then Some (JSString (filled (operation_id (operation cc))))
            else if k = operationName (context_keys c)
            then Some (JSString (filled (operation_name (operation cc))))
            else if k = operationParentId (context_keys c)
            then Some (JSString (filled (operation_parentId (operation cc))))
            else if k = ''__proto__'' then None
            else map_option JSString (merged k)))"
proof -
  define ts where "ts = (case context_tags c of None \<Rightarrow> [] | Some ts \<Rightarrow> ts)"
  define ov where "ov = (case tagOverrides of None \<Rightarrow> [] | Some ov \<Rightarrow> ov)"
  define merged where "merged = map_of ts ++ map_of ov"
  define k1 where "k1 = operationId (context_keys c)"
  define k2 where "k2 = operationName (context_keys c)"
  define k3 where "k3 = operationParentId (context_keys c)"
  define filled where
    "filled = (\<lambda>k x. case merged k of None \<Rightarrow> x | Some v \<Rightarrow> if v \<noteq> [] then v else x)"
  define t0 where "t0 = copy_tags (as_values ov) (copy_tags (as_values ts) [])"
  define t1 where "t1 = set_prop t0 k1 (tag_or t0 k1 (operation_id (operation cc)))"
  define t2 where "t2 = set_prop t1 k2 (tag_or t1 k2 (operation_name (operation cc)))"
  define t3 where "t3 = set_prop t2 k3 (tag_or t2 k3 (operation_parentId (operation cc)))"
  have ks: "k1 \<noteq> k2" "k1 \<noteq> k3" "k2 \<noteq> k3"
    using assms(3) by (simp_all add: k1_def k2_def k3_def)
  have inh: "k1 \<notin> fst ` set Object_prototype" "k2 \<notin> fst ` set Object_prototype"
    "k3 \<notin> fst ` set Object_prototype"
    using assms(4) by (simp_all add: k1_def k2_def k3_def)
  have np: "k1 \<noteq> ''__proto__''" "k2 \<noteq> ''__proto__''" "k3 \<noteq> ''__proto__''"
    using inh by (auto simp: Object_prototype_def)
  have m0: "map_of t0 k = (if k = ''__proto__'' then None else map_option JSString (merged k))"
    for k
    unfolding t0_def merged_def using assms(1,2)
    unfolding ts_def [symmetric] ov_def [symmetric] by (rule map_of_copied)
  have m1: "map_of t1 = (map_of t0)(k1 \<mapsto> JSString (filled k1 (operation_id (operation cc))))"
    unfolding t1_def filled_def using inh(1) m0 [of k1] np(1) by (intro map_of_fill) simp_all
  have "map_of t1 k2 = map_option JSString (merged k2)"
    using ks np by (simp add: m1 m0)
  then have m2: "map_of t2 =
      (map_of t1)(k2 \<mapsto> JSString (filled k2 (operation_name (operation cc))))"
    unfolding t2_def filled_def using inh(2) by (intro map_of_fill)
  have "map_of t2 k3 = map_option JSString (merged k3)"
    using ks np by (simp add: m2 m1 m0)
  then have m3: "map_of t3 =
      (map_of t2)(k3 \<mapsto> JSString (filled k3 (operation_parentId (operation cc))))"
    unfolding t3_def filled_def using inh(3) by (intro map_of_fill)
  have g: "getTags (Some cc) (Some c) tagOverrides = Inr t3"
    by (cases "context_tags c"; cases tagOverrides)
       (simp_all add: getTags_def Let_def ts_def ov_def as_values_def copy_tags_Nil
          t0_def t1_def t2_def t3_def k1_def k2_def k3_def)
  have "map_of t3 k =
      (if k = k1 then Some (JSString (filled k (operation_id (operation cc))))
       else if k = k2 then Some (JSString (filled k (operation_name (operation cc))))
       else if k = k3 then Some (JSString (filled k (operation_parentId (operation cc))))
       else if k = ''__proto__'' then None
       else map_option JSString (merged k))" for k
    using ks by (simp add: m3 m2 m1 m0)
  with g show ?thesis
    unfolding Let_def ts_def [symmetric] ov_def [symmetric] merged_def [symmetric]
      k1_def [symmetric] k2_def [symmetric] k3_def [symmetric] filled_def
    by blast
qed

text \<open>
  C9. With a client context, and tags and overrides whose keys are different (as those
  of an object are): without a correlation context the result holds the tags of the
  context overlaid with the overrides, an override winning over a tag of the context;
  the key \<open>__proto__\<close> is the one exception, which is never copied. With a correlation
  context, and three different well-known keys none of which is the name of a
  property of \<open>Object.prototype\<close>, the result is the same map except at the three
  keys, where the value is that of the overlaid map unless it is missing or empty,
  and then the operation id, name or parent id of the correlation context. On a
  store of objects, where the tags and the overrides are objects that hold strings,
  the call adds one new object to the store, the tags it returns, and leaves every
  other object as it was.
\<close>

theorem getTags_precedence:
  assumes "distinct (map fst (case context_tags c of None \<Rightarrow> [] | Some ts \<Rightarrow> ts))"
    and "distinct (map fst (case tagOverrides of None \<Rightarrow> [] | Some ov \<Rightarrow> ov))"
  shows
    "(\<exists>newTags. getTags None (Some c) tagOverrides = Inr newTags \<and>
        (\<forall>k. map_of newTags k =
           (if k = ''__proto__'' then None
            else map_option JSString
                   ((map_of (case context_tags c of None \<Rightarrow> [] | Some ts \<Rightarrow> ts) ++
                     map_of (case tagOverrides of None \<Rightarrow> [] | Some ov \<Rightarrow> ov)) k)))) \<and>
     (distinct [operationId (context_keys c), operationName (context_keys c),
        operationParentId (context_keys c)] \<and>
      (\<forall>key\<in>set [operationId (context_keys c), operationName (context_keys c),
         operationParentId (context_keys c)]. key \<notin> fst ` set Object_prototype) \<longrightarrow>
        (\<exists>newTags. getTags (Some cc) (Some c) tagOverrides = Inr newTags \<and>
           (\<forall>k. map_of newTags k =
              (let merged = map_of (case context_tags c of None \<Rightarrow> [] | Some ts \<Rightarrow> ts) ++
                            map_of (case tagOverrides of None \<Rightarrow> [] | Some ov \<Rightarrow> ov);
                   filled = (\<lambda>x. case merged k of
                                     None \<Rightarrow> x | Some v \<Rightarrow> if v \<noteq> [] then v else x)
               in if k = operationId (context_keys c)
                  then Some (JSString (filled (operation_id (operation cc))))
                  else if k = operationName (context_keys c)
                  then Some (JSString (filled (operation_name (operation cc))))
                  else if k = operationParentId (context_keys c)
                  then Some (JSString (filled (operation_parentId (operation cc))))
                  else if k = ''__proto__'' then None
                  else map_option JSString (merged k))))) \<and>
     ((\<forall>a. ta = Some a \<longrightarrow> a < length s) \<and> (\<forall>a. oa = Some a \<longrightarrow> a < length s) \<and>
      map_option ((!) s) ta = map_option as_values ts \<and>
      map_option ((!) s) oa = map_option as_values ov \<longrightarrow>
        getTags_store s cc' (Some (ta, K)) oa =
          (case getTags cc' (Some \<lparr>context_tags = ts, context_keys = K\<rparr>) ov of
             Inl e \<Rightarrow> Inl e
           | Inr newTags \<Rightarrow> Inr (s @ [newTags], length s)))"
  using getTags_no_correlation [OF assms] getTags_correlation [OF assms, of cc]
    getTags_store_refines [of ta s oa ts ov cc' K]
  by blast

theorem getTags_precedence_witness:
  "getTags (Some sample_correlation) (Some sample_context)
     (Some [(''ai.operation.id'', []), (''__proto__'', ''x''), (''ai.cloud.role'', ''api'')]) =
   Inr [(''ai.cloud.role'', JSString ''api''), (''ai.operation.name'', JSString ''default''),
        (''ai.operation.id'', JSString ''op1''),
        (''ai.operation.parentId'', JSString ''parent1'')] \<and>
   getTags_store
     [[(''ai.cloud.role'', JSString ''web''), (''ai.operation.name'', JSString ''default'')],
      [(''ai.operation.id'', JSString []), (''__proto__'', JSString ''x''),
       (''ai.cloud.role'', JSString ''api'')]]
     (Some sample_correlation) (Some (Some 0, context_keys sample_context)) (Some 1) =
   Inr ([[(''ai.cloud.role'', JSString ''web''), (''ai.operation.name'', JSString ''default'')],
         [(''ai.operation.id'', JSString []), (''__proto__'', JSString ''x''),
          (''ai.cloud.role'', JSString ''api'')],
         [(''ai.cloud.role'', JSString ''api''), (''ai.operation.name'', JSString ''default''),
          (''ai.operation.id'', JSString ''op1''),
          (''ai.operation.parentId'', JSString ''parent1'')]], 2)"
  using getTags_precedence [of sample_context
      "Some [(''ai.operation.id'', []), (''__proto__'', ''x''), (''ai.cloud.role'', ''api'')]"
      sample_correlation "Some 0"
      "[[(''ai.cloud.role'', JSString ''web''), (''ai.operation.name'', JSString ''default'')],
        [(''ai.operation.id'', JSString []), (''__proto__'', JSString ''x''),
         (''ai.cloud.role'', JSString ''api'')]]"
      "Some 1" "context_tags sample_context"
      "Some [(''ai.operation.id'', []), (''__proto__'', ''x''), (''ai.cloud.role'', ''api'')]"
      "Some sample_correlation" "context_keys sample_context"]
  by (simp add: sample_context_def sample_correlation_def getTags_def Let_def copy_tags_def
        tag_or_def as_values_def set_prop_def get_prop_def js_or_def Object_prototype_def)

lemma getTags_without_context: "getTags (Some cc) None tagOverrides = Inl TypeError"
  by (simp add: getTags_def Let_def)

text \<open>
  C10. With a correlation context and no client context, \<open>getTags\<close> raises a
  \<open>TypeError\<close>, and so \<open>createEnvelope\<close> returns no envelope, whatever its other
  arguments are.
\<close>

theorem getTags_requires_context:
  "getTags (Some cc) None tagOverrides = Inl TypeError \<and>
   (getCurrentContext env = Some cc \<longrightarrow>
      (\<exists>e. createEnvelope env telemetry telemetryType commonProperties None cfg = Inl e))"
  by (auto simp: createEnvelope_def getTags_without_context split: sum.splits option.splits)

theorem getTags_requires_context_witness:
  "getTags (Some sample_correlation) None (Some [(''ai.cloud.role'', ''api'')]) = Inl TypeError \<and>
   createEnvelope (sample_surroundings (Some sample_correlation)) (sample_telemetry None)
     ''MessageData'' None None (Some sample_config) = Inl TypeError"
  using getTags_requires_context [of sample_correlation "Some [(''ai.cloud.role'', ''api'')]"
      "sample_surroundings (Some sample_correlation)" "sample_telemetry None" "''MessageData''"
      None "Some sample_config"]
  by (simp add: sample_surroundings_def sample_contracts_def sample_telemetry_def
        createEnvelope_def convert_def createTraceData_def add_common_properties_def
        getTags_without_context)

section \<open>Properties of EnvelopeFactory.parseStack\<close>

subsection \<open>One long frame\<close>

lemma regex_match_undefined: "regex_match ''undefined'' = None"
  by (simp add: regex_match_def regex_matches_def match_location_def group_at_def greedy_plus_def
        isWhiteSpace_def isLineTerminator_def)

lemma match_location_f: "match_location g2 ''@f:1:1'' = [(g2, ''f'', ''1'')]"
  by (simp add: match_location_def greedy_plus_def isFileNameChar_def isDigit_def group_close_def
        isWhiteSpace_def)

lemma match_location_a: "match_location g2 (CHR ''a'' # r) = []"
  by (simp add: match_location_def isWhiteSpace_def)

lemma group_at_no_space: "\<not> isWhiteSpace c \<Longrightarrow> group_at (c # cs) = [c # cs]"
  by (simp add: group_at_def greedy_plus_def)

lemma lazy_splits_skip:
  assumes "p c" and "\<And>m r. F (m, c # r) = []"
  shows "concat (map F (lazy_splits p (replicate n c @ rest))) =
         concat (map (\<lambda>(m, r). F (replicate n c @ m, r)) (lazy_splits p rest))"
  using assms(2)
proof (induction n arbitrary: F)
  case 0
  show ?case by (simp add: case_prod_unfold)
next
  case (Suc n)
  have "concat (map F (lazy_splits p (replicate (Suc n) c @ rest))) =
      concat (map (\<lambda>(m, r). F (c # m, r)) (lazy_splits p (replicate n c @ rest)))"
    using assms(1) Suc.prems by (simp add: comp_def case_prod_unfold)
  also have "\<dots> = concat (map (\<lambda>(m, r). (\<lambda>(m, r). F (c # m, r)) (replicate n c @ m, r)) (lazy_splits p rest))"
    by (rule Suc.IH) (simp add: Suc.prems)
  finally show ?case by (simp add: case_prod_unfold)
qed

text \<open>The line of \<open>n\<close> characters \<open>a\<close> followed by \<open>@f:1:1\<close>.\<close>

lemma regex_matches_long_line:
  "\<exists>ms. regex_matches (replicate n (CHR ''a'') @ ''@f:1:1'') = (replicate n (CHR ''a''), ''f'', ''1'') # ms"
proof -
  let ?line = "replicate n (CHR ''a'') @ ''@f:1:1''"
  let ?F = "\<lambda>(g2, r2). match_location g2 r2"
  have g: "group_at ?line = [?line]"
    by (cases n) (simp_all add: group_at_no_space isWhiteSpace_def)
  have "regex_matches ?line = concat (map ?F (lazy_splits (\<lambda>c. \<not> isLineTerminator c) ?line))"
    by (simp add: regex_matches_def g)
  also have "\<dots> = concat (map (\<lambda>(m, r). ?F (replicate n (CHR ''a'') @ m, r))
      (lazy_splits (\<lambda>c. \<not> isLineTerminator c) ''@f:1:1''))"
    by (rule lazy_splits_skip) (simp_all add: isLineTerminator_def match_location_a)
  finally have r: "regex_matches ?line =
      concat (map (\<lambda>(m, r). ?F (replicate n (CHR ''a'') @ m, r))
        (lazy_splits (\<lambda>c. \<not> isLineTerminator c) ''@f:1:1''))" .
  obtain ys where "lazy_splits (\<lambda>c. \<not> isLineTerminator c) ''@f:1:1'' = ([], ''@f:1:1'') # ys"
    by simp
  then have "regex_matches ?line =
      (replicate n (CHR ''a''), ''f'', ''1'') #
      concat (map (\<lambda>(m, r). ?F (replicate n (CHR ''a'') @ m, r)) ys)"
    unfolding r by (simp add: match_location_f)
  then show ?thesis by blast
qed

lemma regex_match_long_line:
  "regex_match (replicate n (CHR ''a'') @ ''@f:1:1'') = Some (replicate n (CHR ''a''), ''f'', ''1'')"
  using regex_matches_long_line [of n] by (auto simp: regex_match_def)

lemma trim_no_space:
  "s = [] \<or> \<not> isWhiteSpace (hd s) \<and> \<not> isWhiteSpace (last s) \<Longrightarrow> trim (Some s) = s"
proof (cases s)
  case Nil
  then show ?thesis by simp
next
  case (Cons c cs)
  assume "s = [] \<or> \<not> isWhiteSpace (hd s) \<and> \<not> isWhiteSpace (last s)"
  with Cons have h: "\<not> isWhiteSpace (hd s)" and l: "\<not> isWhiteSpace (last s)" by auto
  have 1: "dropWhile isWhiteSpace s = s" using Cons h by simp
  obtain c' cs' where r: "rev s = c' # cs'" using Cons by (cases "rev s") auto
  have "hd (rev s) = last s" using Cons by (simp add: hd_rev)
  then have "c' = last s" unfolding r by simp
  then have 2: "dropWhile isWhiteSpace (rev s) = rev s" unfolding r using l by simp
  show ?thesis by (simp add: 1 2)
qed

lemma decimal_0: "decimal 0 = ''0''"
  by (subst decimal.simps) simp

lemma decimal_1: "decimal 1 = ''1''" "decimal (Suc 0) = ''1''"
  by (subst decimal.simps, simp)+

lemma new_StackFrame_long_line:
  assumes "0 < n"
  shows "new_StackFrame rt (Some (replicate n (CHR ''a'') @ ''@f:1:1'')) 0 =
     Inr \<lparr>sizeInBytes = 2 * n + 67, level = 0, method' = replicate n (CHR ''a''),
          assembly = replicate n (CHR ''a'') @ ''@f:1:1'', fileName = ''f'', line = Finite 1\<rparr>"
proof -
  obtain k where n: "n = Suc k" using assms by (cases n) auto
  have t1: "trim (Some (replicate n (CHR ''a''))) = replicate n (CHR ''a'')"
    by (rule trim_no_space) (simp add: n isWhiteSpace_def)
  have t2: "trim (Some (replicate n (CHR ''a'') @ ''@f:1:1'')) = replicate n (CHR ''a'') @ ''@f:1:1''"
    by (rule trim_no_space) (simp add: n isWhiteSpace_def)
  have t3: "trim (Some ''f'') = ''f''"
    by (simp add: isWhiteSpace_def)
  have ne: "replicate n (CHR ''a'') \<noteq> []" using assms by simp
  show ?thesis
    unfolding new_StackFrame_def using assms
    by (simp add: regex_match_long_line t1 t2 t3 ne str_or_def parseInt_def num_or_0_def
          number_toString_def intToString_def baseSize_def decimal_0 decimal_1 Let_def
          del: trim.simps)
qed

lemma parseStack_long_line:
  assumes "0 < n"
  shows "parseStack rt (Some (replicate n (CHR ''a'') @ ''@f:1:1'')) =
     Inr (Some [\<lparr>sizeInBytes = 2 * n + 67, level = 0, method' = replicate n (CHR ''a''),
          assembly = replicate n (CHR ''a'') @ ''@f:1:1'', fileName = ''f'', line = Finite 1\<rparr>])"
proof -
  let ?line = "replicate n (CHR ''a'') @ ''@f:1:1''"
  have s: "split (CHR 0x0A) ?line = [?line]"
    by (rule split_no_sep) simp
  have t: "regex_test_frame (Some ?line)" "\<not> regex_test_frame None"
    by (simp_all add: regex_test_frame_def regex_match_long_line regex_match_undefined)
  show ?thesis
    by (simp add: parseStack_def s t new_StackFrame_long_line [OF assms] truncate_stack_def
          truncate_loop.simps Let_def)
qed

subsection \<open>The truncation in general\<close>

lemma total_size_append: "total_size (xs @ ys) = total_size xs + total_size ys"
  by (simp add: total_size_def)

lemma outer_frames_Suc:
  assumes "2 * k + 1 < length fs"
  shows "total_size (outer_frames (Suc k) fs) =
     total_size (outer_frames k fs) + (sizeInBytes (fs ! k) + sizeInBytes (fs ! (length fs - 1 - k)))"
proof -
  have k: "k < length fs" and k': "length fs - Suc k < length fs" using assms by simp_all
  have "take (Suc k) fs = take k fs @ [fs ! k]"
    using k by (rule take_Suc_conv_app_nth)
  moreover have "drop (length fs - Suc k) fs = fs ! (length fs - Suc k) # drop (Suc (length fs - Suc k)) fs"
    using k' by (rule Cons_nth_drop_Suc [symmetric])
  moreover have "Suc (length fs - Suc k) = length fs - k" using k by simp
  ultimately show ?thesis
    by (simp add: outer_frames_def total_size_def)
qed

lemma outer_frames_all: "2 * k = length fs \<Longrightarrow> outer_frames k fs = fs"
proof -
  assume "2 * k = length fs"
  then have "length fs - k = k" by simp
  then show ?thesis by (simp add: outer_frames_def)
qed

lemma outer_frames_but_middle:
  assumes "2 * k + 1 = length fs"
  shows "total_size (outer_frames k fs) + sizeInBytes (fs ! k) = total_size fs"
proof -
  have k: "k < length fs" using assms by simp
  have "length fs - k = Suc k" using assms by simp
  then have "outer_frames k fs = take k fs @ drop (Suc k) fs" by (simp add: outer_frames_def)
  moreover have "fs = take k fs @ fs ! k # drop (Suc k) fs"
    using k by (rule id_take_nth_drop)
  then have "total_size fs = total_size (take k fs) + sizeInBytes (fs ! k) + total_size (drop (Suc k) fs)"
    by (metis (no_types, lifting) total_size_append total_size_def list.simps(9) sum_list.Cons add.assoc)
  ultimately show ?thesis by (simp add: total_size_append)
qed

lemma truncate_loop_result:
  assumes "0 \<le> left" "right = int (length ps) - 1 - left" "left \<le> right + 1"
    and "size' = total_size (outer_frames (nat left) ps)"
    and "size' \<le> exceptionParsedStackThreshold"
    and "acceptedLeft = (if left = 0 then 0 else left - 1)"
    and "acceptedRight = int (length ps) - 1 - acceptedLeft"
  shows "\<exists>ps'. truncate_loop ps left right size' acceptedLeft acceptedRight = Inr ps' \<and>
     ((\<exists>k. 2 * k < length ps \<and> ps' = outer_frames k ps \<and>
           total_size ps' \<le> exceptionParsedStackThreshold) \<or>
      (ps' = ps \<and> (\<exists>j. length ps \<le> 2 * j + 1 \<and> 2 * j \<le> length ps \<and>
           total_size (outer_frames j ps) \<le> exceptionParsedStackThreshold)))"
  using assms
proof (induction "nat (right - left)" arbitrary: left right size' acceptedLeft acceptedRight
    rule: less_induct)
  case less
  show ?case
  proof (cases "left < right")
    case False
    then have "truncate_loop ps left right size' acceptedLeft acceptedRight = Inr ps"
      by (subst truncate_loop.simps) simp
    moreover have "length ps \<le> 2 * nat left + 1" "2 * nat left \<le> length ps"
      using False less.prems by linarith+
    ultimately show ?thesis using less.prems by blast
  next
    case True
    have l: "0 \<le> left" "left < int (length ps)" and r: "0 \<le> right" "right < int (length ps)"
      using True less.prems by linarith+
    let ?l = "ps ! nat left" and ?r = "ps ! nat right"
    let ?size = "size' + (sizeInBytes ?l + sizeInBytes ?r)"
    have idx: "at_index ps left = Some ?l" "at_index ps right = Some ?r"
      using l r by (simp_all add: at_index_def)
    have nr: "nat right = length ps - 1 - nat left" using less.prems l r by linarith
    have lt: "2 * nat left + 1 < length ps" using True less.prems l r by linarith
    have sz: "?size = total_size (outer_frames (nat (left + 1)) ps)"
      using outer_frames_Suc [OF lt] less.prems(4) l nr by (simp add: nat_add_distrib)
    show ?thesis
    proof (cases "?size > exceptionParsedStackThreshold")
      case True
      have res: "truncate_loop ps left right size' acceptedLeft acceptedRight =
          Inr (splice ps acceptedLeft (acceptedRight - acceptedLeft + 1))"
        using \<open>left < right\<close> True idx by (subst truncate_loop.simps) (simp add: Let_def)
      show ?thesis
      proof (cases "left = 0")
        case True
        then have "splice ps acceptedLeft (acceptedRight - acceptedLeft + 1) = outer_frames 0 ps"
          using less.prems by (simp add: splice_def outer_frames_def)
        moreover have "total_size (outer_frames 0 ps) \<le> exceptionParsedStackThreshold"
          by (simp add: outer_frames_def total_size_def)
        moreover have "2 * 0 < length ps" using lt by (cases ps) simp_all
        ultimately show ?thesis using res by metis
      next
        case False
        then have al: "acceptedLeft = left - 1" "acceptedRight = int (length ps) - left"
          using less.prems by simp_all
        have pos: "0 < left" using False l by simp
        define j where "j = nat (left - 1)"
        have left_eq: "left = int j + 1" using pos by (simp add: j_def)
        have j2: "2 * j \<le> length ps" using lt left_eq by simp
        have "acceptedRight - acceptedLeft + 1 = int (length ps - 2 * j)"
          using al left_eq j2 by (simp add: of_nat_diff)
        then have "nat (acceptedRight - acceptedLeft + 1) = length ps - 2 * j" by simp
        moreover have "nat acceptedLeft = j" using al by (simp add: j_def)
        ultimately have "nat acceptedLeft + nat (acceptedRight - acceptedLeft + 1) =
            length ps - nat (left - 1)"
          using j2 by (simp add: j_def)
        then have sp: "splice ps acceptedLeft (acceptedRight - acceptedLeft + 1) =
            outer_frames (nat (left - 1)) ps"
          using al by (simp add: splice_def outer_frames_def)
        have lt': "2 * nat (left - 1) + 1 < length ps" using lt pos by linarith
        have "total_size (outer_frames (Suc (nat (left - 1))) ps) =
            total_size (outer_frames (nat (left - 1)) ps) +
            (sizeInBytes (ps ! nat (left - 1)) + sizeInBytes (ps ! (length ps - 1 - nat (left - 1))))"
          using lt' by (rule outer_frames_Suc)
        moreover have "Suc (nat (left - 1)) = nat left" using pos by simp
        ultimately have "total_size (outer_frames (nat (left - 1)) ps) \<le> size'"
          using less.prems(4) by simp
        then have "total_size (outer_frames (nat (left - 1)) ps) \<le> exceptionParsedStackThreshold"
          using less.prems(5) by simp
        moreover have "2 * nat (left - 1) < length ps" using lt' by simp
        ultimately show ?thesis using res sp by metis
      qed
    next
      case False
      have res: "truncate_loop ps left right size' acceptedLeft acceptedRight =
          truncate_loop ps (left + 1) (right - 1) ?size left right"
        using \<open>left < right\<close> False idx by (subst truncate_loop.simps) (simp add: Let_def)
      have "\<exists>ps'. truncate_loop ps (left + 1) (right - 1) ?size left right = Inr ps' \<and>
         ((\<exists>k. 2 * k < length ps \<and> ps' = outer_frames k ps \<and>
               total_size ps' \<le> exceptionParsedStackThreshold) \<or>
          (ps' = ps \<and> (\<exists>j. length ps \<le> 2 * j + 1 \<and> 2 * j \<le> length ps \<and>
               total_size (outer_frames j ps) \<le> exceptionParsedStackThreshold)))"
      proof (rule less.hyps)
        show "nat (right - 1 - (left + 1)) < nat (right - left)" using True by linarith
        show "0 \<le> left + 1" using l by simp
        show "right - 1 = int (length ps) - 1 - (left + 1)" using less.prems by simp
        show "left + 1 \<le> right - 1 + 1" using True by simp
        show "?size = total_size (outer_frames (nat (left + 1)) ps)" by (rule sz)
        show "?size \<le> exceptionParsedStackThreshold" using False by simp
        show "left = (if left + 1 = 0 then 0 else left + 1 - 1)" using l by simp
        show "right = int (length ps) - 1 - left" using less.prems by simp
      qed
      then show ?thesis unfolding res .
    qed
  qed
qed


lemma truncate_stack_result:
  "\<exists>ps'. truncate_stack ps (total_size ps) = Inr ps' \<and>
     ((ps' = ps \<and> total_size ps \<le> exceptionParsedStackThreshold) \<or>
      (\<exists>k. 2 * k < length ps \<and> ps' = outer_frames k ps \<and>
           total_size ps' \<le> exceptionParsedStackThreshold) \<or>
      (ps' = ps \<and> odd (length ps) \<and> exceptionParsedStackThreshold < total_size ps \<and>
       total_size ps \<le> exceptionParsedStackThreshold + sizeInBytes (ps ! (length ps div 2))))"
proof (cases "total_size ps > exceptionParsedStackThreshold")
  case False
  then show ?thesis by (simp add: truncate_stack_def)
next
  case True
  have "\<exists>ps'. truncate_loop ps 0 (int (length ps) - 1) 0 0 (int (length ps) - 1) = Inr ps' \<and>
     ((\<exists>k. 2 * k < length ps \<and> ps' = outer_frames k ps \<and>
           total_size ps' \<le> exceptionParsedStackThreshold) \<or>
      (ps' = ps \<and> (\<exists>j. length ps \<le> 2 * j + 1 \<and> 2 * j \<le> length ps \<and>
           total_size (outer_frames j ps) \<le> exceptionParsedStackThreshold)))"
    by (rule truncate_loop_result) (simp_all add: outer_frames_def total_size_def)
  then obtain ps' where res: "truncate_loop ps 0 (int (length ps) - 1) 0 0 (int (length ps) - 1) = Inr ps'"
    and alt: "(\<exists>k. 2 * k < length ps \<and> ps' = outer_frames k ps \<and>
           total_size ps' \<le> exceptionParsedStackThreshold) \<or>
      (ps' = ps \<and> (\<exists>j. length ps \<le> 2 * j + 1 \<and> 2 * j \<le> length ps \<and>
           total_size (outer_frames j ps) \<le> exceptionParsedStackThreshold))"
    by blast
  have ts: "truncate_stack ps (total_size ps) = Inr ps'"
    using True res by (simp add: truncate_stack_def Let_def)
  from alt show ?thesis
  proof
    assume "\<exists>k. 2 * k < length ps \<and> ps' = outer_frames k ps \<and>
           total_size ps' \<le> exceptionParsedStackThreshold"
    with ts show ?thesis by blast
  next
    assume "ps' = ps \<and> (\<exists>j. length ps \<le> 2 * j + 1 \<and> 2 * j \<le> length ps \<and>
           total_size (outer_frames j ps) \<le> exceptionParsedStackThreshold)"
    then obtain j where same: "ps' = ps" and j: "length ps \<le> 2 * j + 1" "2 * j \<le> length ps"
      and le: "total_size (outer_frames j ps) \<le> exceptionParsedStackThreshold" by blast
    have "2 * j \<noteq> length ps"
    proof
      assume "2 * j = length ps"
      then have "outer_frames j ps = ps" by (rule outer_frames_all)
      with le True show False by simp
    qed
    with j have odd: "2 * j + 1 = length ps" by linarith
    then have "j = length ps div 2" by linarith
    moreover have "total_size (outer_frames j ps) + sizeInBytes (ps ! j) = total_size ps"
      using odd by (rule outer_frames_but_middle)
    moreover have "odd (length ps)" using odd by presburger
    ultimately show ?thesis using ts same le True by auto
  qed
qed

lemma parse_frames_result:
  assumes "\<forall>e\<in>set es. e = None \<or> (\<exists>f. e = Some f)"
  shows "\<exists>parsed. parse_frames rt es lvl (total_size ps) ps = Inr (parsed, total_size parsed)"
  using assms
proof (induction es arbitrary: lvl ps)
  case Nil
  show ?case by simp
next
  case (Cons e es)
  show ?case
  proof (cases "regex_test_frame e")
    case False
    then show ?thesis using Cons by simp
  next
    case True
    have "e \<noteq> None"
    proof
      assume "e = None"
      with True show False
        by (simp add: regex_test_frame_def regex_match_undefined)
    qed
    then obtain f where f: "e = Some f" by auto
    with True obtain m where "regex_match f = Some m"
      by (auto simp: regex_test_frame_def)
    then obtain frame where fr: "new_StackFrame rt e lvl = Inr frame"
      using f by (cases m) (auto simp: new_StackFrame_def Let_def)
    have "total_size ps + sizeInBytes frame = total_size (ps @ [frame])"
      by (simp add: total_size_def)
    then show ?thesis using True fr Cons.IH [of "lvl + 1" "ps @ [frame]"] Cons.prems by simp
  qed
qed

lemma parseStack_cases:
  "\<exists>parsed fs.
     parse_frames rt (map Some (split (CHR 0x0A) s) @ [None]) 0 0 [] = Inr (parsed, total_size parsed) \<and>
     parseStack rt (Some s) = Inr (Some fs) \<and>
     ((fs = parsed \<and> total_size parsed \<le> exceptionParsedStackThreshold) \<or>
      (\<exists>k. 2 * k < length parsed \<and> fs = outer_frames k parsed \<and>
           total_size fs \<le> exceptionParsedStackThreshold) \<or>
      (fs = parsed \<and> odd (length parsed) \<and> exceptionParsedStackThreshold < total_size parsed \<and>
       total_size parsed \<le>
         exceptionParsedStackThreshold + sizeInBytes (parsed ! (length parsed div 2))))"
proof -
  have "\<exists>parsed. parse_frames rt (map Some (split (CHR 0x0A) s) @ [None]) 0 (total_size []) [] =
      Inr (parsed, total_size parsed)"
    by (rule parse_frames_result) auto
  then obtain parsed where p:
    "parse_frames rt (map Some (split (CHR 0x0A) s) @ [None]) 0 0 [] = Inr (parsed, total_size parsed)"
    by (auto simp: total_size_def)
  from truncate_stack_result [of parsed] obtain fs where
    t: "truncate_stack parsed (total_size parsed) = Inr fs" and
    alt: "(fs = parsed \<and> total_size parsed \<le> exceptionParsedStackThreshold) \<or>
      (\<exists>k. 2 * k < length parsed \<and> fs = outer_frames k parsed \<and>
           total_size fs \<le> exceptionParsedStackThreshold) \<or>
      (fs = parsed \<and> odd (length parsed) \<and> exceptionParsedStackThreshold < total_size parsed \<and>
       total_size parsed \<le>
         exceptionParsedStackThreshold + sizeInBytes (parsed ! (length parsed div 2)))"
    by blast
  have "parseStack rt (Some s) = Inr (Some fs)"
    using p t by (simp add: parseStack_def Let_def)
  with p alt show ?thesis by blast
qed

text \<open>
  What \<open>parseStack\<close> does to every string. The first loop returns the parsed frames
  and their total size, and the call returns without raising. Either the total is
  within the threshold and all frames are returned; or the frames returned are \<open>k\<close>
  frames from the top and \<open>k\<close> from the bottom, in their order, fewer than all, with
  a total within the threshold; or the total is over the threshold, the number of
  frames is odd, the total without the frame in the middle is within the threshold,
  and all frames are returned.
\<close>

theorem parseStack_truncation:
  "\<exists>parsed fs.
     parse_frames rt (map Some (split (CHR 0x0A) s) @ [None]) 0 0 [] = Inr (parsed, total_size parsed) \<and>
     parseStack rt (Some s) = Inr (Some fs) \<and>
     ((fs = parsed \<and> total_size parsed \<le> exceptionParsedStackThreshold) \<or>
      (\<exists>k. 2 * k < length parsed \<and> fs = outer_frames k parsed \<and>
           total_size fs \<le> exceptionParsedStackThreshold) \<or>
      (fs = parsed \<and> odd (length parsed) \<and> exceptionParsedStackThreshold < total_size parsed \<and>
       total_size parsed \<le>
         exceptionParsedStackThreshold + sizeInBytes (parsed ! (length parsed div 2))))"
  by (rule parseStack_cases)

lemma parseStack_returns: "\<exists>r. parseStack rt stack = Inr r"
proof (cases stack)
  case None
  then show ?thesis by (simp add: parseStack_def)
next
  case (Some s)
  then show ?thesis using parseStack_cases [of rt s] by blast
qed

text \<open>
  C1 fails on the code. The stack string of 16351 characters \<open>a\<close> followed by
  \<open>@f:1:1\<close> is one frame, whose size is 32769. The total is over the threshold of
  32768, but with one frame the loop \<open>while (left < right)\<close> does not run, and the
  frame is returned.
\<close>

theorem parseStack_exceeds_threshold:
  "parseStack rt (Some (replicate 16351 (CHR ''a'') @ ''@f:1:1'')) =
     Inr (Some [\<lparr>sizeInBytes = 32769, level = 0, method' = replicate 16351 (CHR ''a''),
       assembly = replicate 16351 (CHR ''a'') @ ''@f:1:1'', fileName = ''f'', line = Finite 1\<rparr>]) \<and>
   exceptionParsedStackThreshold = 32 * 1024 \<and>
   exceptionParsedStackThreshold <
     total_size [\<lparr>sizeInBytes = 32769, level = 0, method' = replicate 16351 (CHR ''a''),
       assembly = replicate 16351 (CHR ''a'') @ ''@f:1:1'', fileName = ''f'', line = Finite 1\<rparr>]"
  using parseStack_long_line [of 16351]
  by (simp add: exceptionParsedStackThreshold_def total_size_def)

section \<open>Properties of EnvelopeFactory.createEnvelope\<close>

lemma get_prop_update:
  "get_prop (AList.update n v ps) k = (if k = n then v else get_prop ps k)"
  by (simp add: get_prop_def update_conv')

text \<open>
  When \<open>properties[name]\<close> is falsy the assignment adds or replaces an own property:
  the inherited \<open>__proto__\<close> is truthy.
\<close>

lemma merge_step_update:
  "merge_step (n, v) ps =
     (if \<not> truthy (get_prop ps n) then AList.update n (JSString v) ps else ps)"
  by (auto simp: merge_step_def set_prop_def get_prop_def Object_prototype_def)

lemma map_of_fold_merge_step:
  "distinct (map fst cp) \<Longrightarrow>
   map_of (fold merge_step cp ps) k =
     (if truthy (get_prop ps k) then map_of ps k
      else (case map_of cp k of Some v \<Rightarrow> Some (JSString v) | None \<Rightarrow> map_of ps k))"
proof (induction cp arbitrary: ps)
  case Nil
  show ?case by simp
next
  case (Cons x cp)
  obtain n v where x: "x = (n, v)" by (cases x)
  with Cons.prems have n: "map_of cp n = None" and d: "distinct (map fst cp)"
    by (auto simp: map_of_eq_None_iff)
  let ?ps = "merge_step (n, v) ps"
  have step: "map_of (fold merge_step (x # cp) ps) k =
      (if truthy (get_prop ?ps k) then map_of ?ps k
       else (case map_of cp k of Some v \<Rightarrow> Some (JSString v) | None \<Rightarrow> map_of ?ps k))"
    using Cons.IH [OF d, of ?ps] x by simp
  show ?case
  proof (cases "k = n")
    case True
    with step n have "map_of (fold merge_step (x # cp) ps) k = map_of ?ps n" by simp
    also have "\<dots> = (if truthy (get_prop ps n) then map_of ps n else Some (JSString v))"
      by (simp add: merge_step_update update_conv')
    finally show ?thesis using True x by simp
  next
    case False
    then have "get_prop ?ps k = get_prop ps k" "map_of ?ps k = map_of ps k"
      by (simp_all add: merge_step_update get_prop_update update_conv')
    with step False x show ?thesis by (simp split: option.splits)
  qed
qed

lemma convert_baseType:
  "convert C rt telemetry telemetryType = Inr (Some d) \<Longrightarrow> baseType d = telemetryType"
  by (auto simp: convert_def createTraceData_def createDependencyData_def createEventData_def
        createExceptionData_def createRequestData_def createMetricData_def Let_def
      split: if_splits sum.splits option.splits)

lemma convert_unrecognized:
  "telemetryType \<notin> set [MESSAGE C, REMOTE_DEPENDENCY C, EVENT C, EXCEPTION C, REQUEST C, METRIC C] \<Longrightarrow>
   convert C rt telemetry telemetryType = Inr None"
  by (simp add: convert_def)

lemma add_common_properties_baseType:
  "add_common_properties env cp (Some d) = Inr r \<Longrightarrow> \<exists>d'. r = Some d' \<and> baseType d' = baseType d"
  by (auto simp: add_common_properties_def Let_def split: option.splits if_splits sum.splits)

lemma add_common_properties_None:
  "add_common_properties env cp None = Inr r \<Longrightarrow> r = None"
  by (auto simp: add_common_properties_def split: option.splits)

lemma createEnvelope_name:
  assumes "createEnvelope env telemetry telemetryType commonProperties context cfg = Inr e"
  shows "(\<exists>d. data e = Some d \<and> baseType d = telemetryType) \<and>
     name e = ''Microsoft.ApplicationInsights.'' @ filter (\<lambda>c. c \<noteq> CHR ''-'') (iKey e) @ ''.'' @
       take (length telemetryType - 4) telemetryType \<and>
     ver e = 1 \<and>
     iKey e = (case cfg of None \<Rightarrow> [] | Some c \<Rightarrow> (case instrumentationKey c of None \<Rightarrow> [] | Some k \<Rightarrow> k))"
proof -
  from assms obtain d0 where
    c: "convert (the_contracts env) (the_runtime env) telemetry telemetryType = Inr d0"
    by (auto simp: createEnvelope_def split: sum.splits)
  from assms c obtain d1 where a: "add_common_properties env commonProperties d0 = Inr d1"
    by (auto simp: createEnvelope_def split: sum.splits)
  from assms c a obtain d where d1: "d1 = Some d"
    by (auto simp: createEnvelope_def Let_def split: sum.splits option.splits)
  have "d0 \<noteq> None" using a d1 add_common_properties_None by (cases d0) auto
  then obtain d' where d0: "d0 = Some d'" by auto
  have "baseType d' = telemetryType" using c d0 convert_baseType by blast
  moreover have "baseType d = baseType d'"
    using a d0 d1 add_common_properties_baseType by fastforce
  ultimately have bt: "baseType d = telemetryType" by simp
  from assms c a d1 bt show ?thesis
    by (auto simp: createEnvelope_def Let_def split: sum.splits option.splits)
qed

lemma createEnvelope_unrecognized:
  assumes "telemetryType \<notin> set [MESSAGE (the_contracts env), REMOTE_DEPENDENCY (the_contracts env),
      EVENT (the_contracts env), EXCEPTION (the_contracts env), REQUEST (the_contracts env),
      METRIC (the_contracts env)]"
  shows "createEnvelope env telemetry telemetryType commonProperties context cfg = Inl TypeError"
  using convert_unrecognized [OF assms]
  by (cases commonProperties) (simp_all add: createEnvelope_def add_common_properties_def)

lemma convert_recognized:
  assumes "telemetryType \<in> set [MESSAGE C, REMOTE_DEPENDENCY C, EVENT C, EXCEPTION C, REQUEST C, METRIC C]"
    and "t_exception telemetry \<noteq> None"
  shows "\<exists>d. convert C rt telemetry telemetryType = Inr (Some d)"
proof -
  obtain exn where exn: "t_exception telemetry = Some exn" using assms(2) by auto
  obtain r where "parseStack rt (error_stack exn) = Inr r" using parseStack_returns by blast
  then obtain d where d: "createExceptionData C rt telemetry = Inr d"
    using exn by (simp add: createExceptionData_def Let_def)
  show ?thesis using assms(1) by (simp add: convert_def d) blast
qed

lemma createEnvelope_returns:
  assumes "telemetryType \<in> set [MESSAGE (the_contracts env), REMOTE_DEPENDENCY (the_contracts env),
      EVENT (the_contracts env), EXCEPTION (the_contracts env), REQUEST (the_contracts env),
      METRIC (the_contracts env)]"
    and "t_exception telemetry \<noteq> None"
    and "context \<noteq> None \<or> getCurrentContext env = None"
  shows "\<exists>e. createEnvelope env telemetry telemetryType None context cfg = Inr e"
proof -
  obtain d where
    d: "convert (the_contracts env) (the_runtime env) telemetry telemetryType = Inr (Some d)"
    using convert_recognized [OF assms(1,2)] by blast
  have "\<exists>ts. getTags (getCurrentContext env) context (t_tagOverrides telemetry) = Inr ts"
    using assms(3) by (auto simp: getTags_def Let_def split: option.splits)
  then show ?thesis
    using d by (auto simp: createEnvelope_def add_common_properties_def Let_def)
qed

text \<open>
  C7. Every envelope that \<open>createEnvelope\<close> returns was made for one of the six
  type names; the base type of its data is that type name, its name is
  \<open>Microsoft.ApplicationInsights.\<close>, the instrumentation key without its dashes, a
  point and the type name without its last four characters, its instrumentation key
  is that of the configuration (empty without one), and its version is 1. For each
  of the six type names an envelope is returned when there are no common properties,
  the telemetry has an exception, and there is a client context or no correlation
  context.
\<close>

theorem createEnvelope_name_and_type:
  "(\<forall>e. createEnvelope env telemetry telemetryType commonProperties context cfg = Inr e \<longrightarrow>
      telemetryType \<in> set [MESSAGE (the_contracts env), REMOTE_DEPENDENCY (the_contracts env),
        EVENT (the_contracts env), EXCEPTION (the_contracts env), REQUEST (the_contracts env),
        METRIC (the_contracts env)] \<and>
      (\<exists>d. data e = Some d \<and> baseType d = telemetryType) \<and>
      name e = ''Microsoft.ApplicationInsights.'' @ filter (\<lambda>c. c \<noteq> CHR ''-'') (iKey e) @ ''.'' @
        take (length telemetryType - 4) telemetryType \<and>
      ver e = 1 \<and>
      iKey e = (case cfg of None \<Rightarrow> []
                | Some c \<Rightarrow> (case instrumentationKey c of None \<Rightarrow> [] | Some k \<Rightarrow> k))) \<and>
   (telemetryType \<in> set [MESSAGE (the_contracts env), REMOTE_DEPENDENCY (the_contracts env),
        EVENT (the_contracts env), EXCEPTION (the_contracts env), REQUEST (the_contracts env),
        METRIC (the_contracts env)] \<and>
    t_exception telemetry \<noteq> None \<and> (context \<noteq> None \<or> getCurrentContext env = None) \<longrightarrow>
      (\<exists>e. createEnvelope env telemetry telemetryType None context cfg = Inr e))"
proof (intro conjI allI impI)
  fix e
  assume e: "createEnvelope env telemetry telemetryType commonProperties context cfg = Inr e"
  show "telemetryType \<in> set [MESSAGE (the_contracts env), REMOTE_DEPENDENCY (the_contracts env),
        EVENT (the_contracts env), EXCEPTION (the_contracts env), REQUEST (the_contracts env),
        METRIC (the_contracts env)]"
  proof (rule ccontr)
    assume "\<not> ?thesis"
    then have "createEnvelope env telemetry telemetryType commonProperties context cfg = Inl TypeError"
      by (rule createEnvelope_unrecognized)
    with e show False by simp
  qed
  from createEnvelope_name [OF e]
  show "\<exists>d. data e = Some d \<and> baseType d = telemetryType"
    and "name e = ''Microsoft.ApplicationInsights.'' @ filter (\<lambda>c. c \<noteq> CHR ''-'') (iKey e) @ ''.'' @
        take (length telemetryType - 4) telemetryType"
    and "ver e = 1"
    and "iKey e = (case cfg of None \<Rightarrow> []
                | Some c \<Rightarrow> (case instrumentationKey c of None \<Rightarrow> [] | Some k \<Rightarrow> k))"
    by blast+
next
  assume a: "telemetryType \<in> set [MESSAGE (the_contracts env), REMOTE_DEPENDENCY (the_contracts env),
        EVENT (the_contracts env), EXCEPTION (the_contracts env), REQUEST (the_contracts env),
        METRIC (the_contracts env)] \<and>
    t_exception telemetry \<noteq> None \<and> (context \<noteq> None \<or> getCurrentContext env = None)"
  from a have 1: "telemetryType \<in> set [MESSAGE (the_contracts env),
        REMOTE_DEPENDENCY (the_contracts env), EVENT (the_contracts env),
        EXCEPTION (the_contracts env), REQUEST (the_contracts env), METRIC (the_contracts env)]"
    by (rule conjunct1)
  from a have 2: "t_exception telemetry \<noteq> None" by simp
  from a have 3: "context \<noteq> None \<or> getCurrentContext env = None" by simp
  from 1 2 3 show "\<exists>e. createEnvelope env telemetry telemetryType None context cfg = Inr e"
    by (rule createEnvelope_returns)
qed

lemma createEnvelope_sample:
  "createEnvelope (sample_surroundings None) (sample_telemetry None) ''MessageData'' None
     (Some sample_context) (Some sample_config) =
   Inr \<lparr>ver = 1,
        name = ''Microsoft.ApplicationInsights.1aa11111bbbb1ccc8dddeeeeffff3333.Message'',
        time = ''2020-01-01T00:00:00.000Z'',
        iKey = ''1aa11111-bbbb-1ccc-8ddd-eeeeffff3333'',
        sampleRate = Finite 100,
        tags = [(''ai.cloud.role'', JSString ''web''),
                (''ai.operation.name'', JSString ''default'')],
        data = Some \<lparr>baseType = ''MessageData'',
                    baseData = \<lparr>body = MessageData JSUndefined (Some (Finite 1)),
                                properties = None\<rparr>\<rparr>\<rparr>"
  by (simp add: createEnvelope_def convert_def createTraceData_def add_common_properties_def
        getTags_def copy_tags_def as_values_def set_prop_def Let_def isNaN_opt_def
        sample_surroundings_def sample_contracts_def sample_telemetry_def sample_context_def
        sample_config_def)

theorem createEnvelope_name_and_type_witness:
  "map_sum id name
     (createEnvelope (sample_surroundings None) (sample_telemetry None) ''MessageData'' None
        (Some sample_context) (Some sample_config)) =
   Inr ''Microsoft.ApplicationInsights.1aa11111bbbb1ccc8dddeeeeffff3333.Message'' \<and>
   map_sum id (\<lambda>e. map_option baseType (data e))
     (createEnvelope (sample_surroundings None) (sample_telemetry None) ''MessageData'' None
        (Some sample_context) (Some sample_config)) =
   Inr (Some ''MessageData'')"
  using createEnvelope_name_and_type [of "sample_surroundings None" "sample_telemetry None"
      "''MessageData''" None "Some sample_context" "Some sample_config"]
  by (simp add: createEnvelope_sample)

text \<open>
  C2, as the code has it. For a type name that is none of the six, the \<open>switch\<close>
  leaves the data \<open>null\<close>, and \<open>createEnvelope\<close> raises a \<open>TypeError\<close>: with common
  properties when it reads \<open>data.baseData\<close>, and without them when it reads
  \<open>data.baseType\<close> for the name of the envelope. No envelope is returned.
\<close>

theorem createEnvelope_unrecognized_raises:
  "telemetryType \<notin> set [MESSAGE (the_contracts env), REMOTE_DEPENDENCY (the_contracts env),
      EVENT (the_contracts env), EXCEPTION (the_contracts env), REQUEST (the_contracts env),
      METRIC (the_contracts env)] \<longrightarrow>
   convert (the_contracts env) (the_runtime env) telemetry telemetryType = Inr None \<and>
   add_common_properties env (Some cp) None = Inl TypeError \<and>
   createEnvelope env telemetry telemetryType commonProperties context cfg = Inl TypeError"
  using convert_unrecognized [of telemetryType "the_contracts env" "the_runtime env" telemetry]
    createEnvelope_unrecognized [of telemetryType env telemetry commonProperties "context" cfg]
  by (simp add: add_common_properties_def)

theorem createEnvelope_unrecognized_raises_witness:
  "createEnvelope (sample_surroundings None) (sample_telemetry None) ''PageViewData''
     (Some [(''a'', ''1'')]) (Some sample_context) (Some sample_config) = Inl TypeError"
  using createEnvelope_unrecognized_raises [of "''PageViewData''" "sample_surroundings None"
      "sample_telemetry None" "[]" "Some [(''a'', ''1'')]" "Some sample_context"
      "Some sample_config"]
  by (simp add: sample_surroundings_def sample_contracts_def)

text \<open>
  C2 as it is written fails: for the type name \<open>UnknownData\<close>, none of the six, the
  call raises and returns no envelope.
\<close>

theorem createEnvelope_unrecognized_counterexample:
  "createEnvelope (sample_surroundings None) (sample_telemetry None) ''UnknownData'' None
     (Some sample_context) (Some sample_config) = Inl TypeError"
  by (simp add: createEnvelope_def convert_def add_common_properties_def
        sample_surroundings_def sample_contracts_def)

text \<open>
  What the merge does. Without properties on the body the common properties are
  taken as they are. Otherwise, for common properties with different keys, the
  merged properties hold under a key the value of the body when what
  \<open>properties[key]\<close> reads there (the value of the body, or a property inherited from
  \<open>Object.prototype\<close>) is truthy, and else the common value when there is one.
\<close>

lemma merge_properties_map_of:
  "merge_properties None cp = as_values cp \<and>
   (distinct (map fst cp) \<longrightarrow>
      map_of (merge_properties (Some ps) cp) k =
        (if truthy (get_prop ps k) then map_of ps k
         else (case map_of cp k of Some v \<Rightarrow> Some (JSString v) | None \<Rightarrow> map_of ps k)))"
  using map_of_fold_merge_step [of cp ps k]
  by (simp add: merge_properties_def)

text \<open>
  A key of the body with a truthy value is never overwritten, and a common key that
  the body does not have, and \<open>Object.prototype\<close> neither, is added.
\<close>

lemma merge_properties_keeps_truthy:
  assumes "distinct (map fst cp)" "map_of ps k = Some v" "truthy v"
  shows "map_of (merge_properties (Some ps) cp) k = Some v"
  using merge_properties_map_of [of cp ps k] assms by (simp add: get_prop_def)

lemma merge_properties_adds_missing:
  assumes "distinct (map fst cp)" "map_of ps k = None" "k \<notin> fst ` set Object_prototype"
    and "map_of cp k = Some v"
  shows "map_of (merge_properties (Some ps) cp) k = Some (JSString v)"
proof -
  have "map_of Object_prototype k = None"
    using assms(3) by (simp add: map_of_eq_None_iff)
  then show ?thesis
    using merge_properties_map_of [of cp ps k] assms by (simp add: get_prop_def)
qed

lemmas createEnvelope_eval =
  createEnvelope_def convert_def createEventData_def add_common_properties_def
  merge_properties_def merge_step_def get_prop_def set_prop_def Object_prototype_def
  as_values_def validateStringMap_def property_of_def isPrimitive_def
  MAX_PROPERTY_LENGTH_def getTags_def copy_tags_def Let_def
  sample_surroundings_def sample_contracts_def sample_telemetry_def sample_context_def
  sample_config_def sample_runtime_def

text \<open>
  The merge inside \<open>createEnvelope\<close>, on the example of the specification: the
  properties of the envelope are \<open>{a: "1", b: "3"}\<close>.
\<close>

lemma createEnvelope_merge_example:
  "map_sum id (\<lambda>e. map_option (\<lambda>d. properties (baseData d)) (data e))
     (createEnvelope (sample_surroundings None) (sample_telemetry (Some [(''a'', JSString ''1'')]))
        ''EventData'' (Some [(''a'', ''2''), (''b'', ''3'')]) (Some sample_context)
        (Some sample_config)) =
   Inr (Some (Some [(''a'', JSString ''1''), (''b'', JSString ''3'')]))"
  by (simp add: createEnvelope_eval)

text \<open>
  A common key that is the name of a property of \<open>Object.prototype\<close> is not added,
  though the body does not have it: the guard reads the inherited property.
\<close>

lemma createEnvelope_merge_inherited:
  "map_sum id (\<lambda>e. map_option (\<lambda>d. properties (baseData d)) (data e))
     (createEnvelope (sample_surroundings None) (sample_telemetry (Some [(''a'', JSString ''1'')]))
        ''EventData'' (Some [(''constructor'', ''x''), (''b'', ''3'')]) (Some sample_context)
        (Some sample_config)) =
   Inr (Some (Some [(''a'', JSString ''1''), (''b'', JSString ''3'')]))"
  by (simp add: createEnvelope_eval)

text \<open>
  C5 fails on the code. The body has the key \<open>a\<close>, set to the empty string, and the
  common properties are \<open>{a: "2"}\<close>: the guard \<open>!data.baseData.properties[name]\<close> takes
  the empty string for a property that is not set, and the merge overwrites it, so
  that the envelope carries \<open>{a: "2"}\<close>. The comment on the guard says "only override
  if the property \<open>name\<close> has not been set on this item".
\<close>

theorem createEnvelope_overwrites_set_property:
  "createEnvelope (sample_surroundings None) (sample_telemetry (Some [(''a'', JSString [])]))
     ''EventData'' (Some [(''a'', ''2'')]) (Some sample_context) (Some sample_config) =
   Inr \<lparr>ver = 1,
        name = ''Microsoft.ApplicationInsights.1aa11111bbbb1ccc8dddeeeeffff3333.Event'',
        time = ''2020-01-01T00:00:00.000Z'',
        iKey = ''1aa11111-bbbb-1ccc-8ddd-eeeeffff3333'',
        sampleRate = Finite 100,
        tags = [(''ai.cloud.role'', JSString ''web''),
                (''ai.operation.name'', JSString ''default'')],
        data = Some \<lparr>baseType = ''EventData'',
                    baseData = \<lparr>body = EventData JSUndefined JSUndefined,
                                properties = Some [(''a'', JSString ''2'')]\<rparr>\<rparr>\<rparr>"
  by (simp add: createEnvelope_eval)

end
